theory Spec2Isabelle
  imports Complex_Main "HOL-Library.Word"
begin

section \<open>JavaScript numbers as they occur in the audio path\<close>

text \<open>
  The samples reach the converter out of a \<open>Float32Array\<close>.  A finite single-precision
  value is a dyadic rational with a 24-bit significand; the only arithmetic the audio path
  performs on it is a comparison or a multiplication by \<open>0x8000\<close> or \<open>0x7FFF\<close>, whose
  result needs at most 39 significant bits and is therefore exact in the double-precision
  arithmetic of JavaScript.  A finite sample is hence modelled by its exact rational value;
  the three non-finite values are kept as constructors of their own.  (The two zeros of
  IEEE arithmetic are identified: both are stored as the integer 0.)
\<close>

datatype jsnum = Num rat | NaN | PosInf | NegInf

text \<open>The relational operator \<open><\<close>: false as soon as one operand is \<open>NaN\<close>.\<close>

fun js_less :: "jsnum \<Rightarrow> jsnum \<Rightarrow> bool" where
  "js_less NaN _ = False"
| "js_less _ NaN = False"
| "js_less (Num a) (Num b) = (a < b)"
| "js_less NegInf NegInf = False"
| "js_less NegInf _ = True"
| "js_less _ NegInf = False"
| "js_less PosInf _ = False"
| "js_less _ PosInf = True"

text \<open>\<open>Math.min\<close>, \<open>Math.max\<close> and \<open>Math.abs\<close>: \<open>NaN\<close> is contagious.\<close>

definition Math_min :: "jsnum \<Rightarrow> jsnum \<Rightarrow> jsnum" where
  "Math_min a b = (if a = NaN \<or> b = NaN then NaN else if js_less b a then b else a)"

definition Math_max :: "jsnum \<Rightarrow> jsnum \<Rightarrow> jsnum" where
  "Math_max a b = (if a = NaN \<or> b = NaN then NaN else if js_less a b then b else a)"

fun Math_abs :: "jsnum \<Rightarrow> jsnum" where
  "Math_abs (Num r) = Num \<bar>r\<bar>"
| "Math_abs NaN = NaN"
| "Math_abs PosInf = PosInf"
| "Math_abs NegInf = PosInf"

text \<open>Multiplication of a number by a positive finite constant (\<open>sample * 0x8000\<close>).\<close>

fun js_times :: "jsnum \<Rightarrow> rat \<Rightarrow> jsnum" where
  "js_times (Num r) k = Num (r * k)"
| "js_times NaN k = NaN"
| "js_times PosInf k = PosInf"
| "js_times NegInf k = NegInf"

text \<open>
  A store into an \<open>Int16Array\<close> applies \<open>ToInt16\<close>: a non-finite number becomes 0, a finite
  one is truncated toward zero and reduced modulo \<open>2^16\<close> into the signed range.
\<close>

definition js_truncate :: "rat \<Rightarrow> int" where
  "js_truncate r = (if r < 0 then - \<lfloor>- r\<rfloor> else \<lfloor>r\<rfloor>)"

fun ToInt16 :: "jsnum \<Rightarrow> 16 word" where
  "ToInt16 (Num r) = word_of_int (js_truncate r)"
| "ToInt16 NaN = 0"
| "ToInt16 PosInf = 0"
| "ToInt16 NegInf = 0"

section \<open>Sample Converter\<close>

text \<open>
  \<^verbatim>\<open>const sample = Math.max(-1, Math.min(1, frameSamples[i]))\<close>
  \<^verbatim>\<open>pcmData[i] = sample < 0 ? sample * 0x8000 : sample * 0x7FFF\<close>
\<close>

definition clamp_sample :: "jsnum \<Rightarrow> jsnum" where
  "clamp_sample x = Math_max (Num (- 1)) (Math_min (Num 1) x)"

definition scale_sample :: "jsnum \<Rightarrow> jsnum" where
  "scale_sample sample =
     (if js_less sample (Num 0) then js_times sample 32768 else js_times sample 32767)"

definition pcm_of_sample :: "jsnum \<Rightarrow> 16 word" where
  "pcm_of_sample x = ToInt16 (scale_sample (clamp_sample x))"

text \<open>
  \<^verbatim>\<open>Math.abs(sample) > 0.01\<close>, on the clamped sample.  The threshold is taken at the
  decimal value of the literal; for the samples of a \<open>Float32Array\<close> this is the comparison
  with the double the literal denotes (lemma \<open>silence_threshold_float32\<close> below).
\<close>

definition SILENCE_THRESHOLD :: rat where
  "SILENCE_THRESHOLD = 1 / 100"

definition above_threshold :: "jsnum \<Rightarrow> bool" where
  "above_threshold sample = js_less (Num SILENCE_THRESHOLD) (Math_abs sample)"

section \<open>Frame Accumulator: data\<close>

text \<open>The audio format constants of the capture component.\<close>

definition SAMPLE_RATE :: nat where
  "SAMPLE_RATE = 16000"

definition FRAME_SIZE :: nat where
  "FRAME_SIZE = 2048"

definition CHANNELS :: nat where
  "CHANNELS = 1"

text \<open>A \<open>Float32Array\<close> is the list of its elements.\<close>

type_synonym chunk = "jsnum list"

text \<open>
  What one turn of the frame loop does with a candidate frame: the samples spliced off, the
  \<open>Int16Array\<close> computed from them, the flag \<open>hasAudio\<close>, and whether the frame was handed
  to \<open>send\<close>.  The source returns nothing; this record is the observation of one turn.
\<close>

record frame_result =
  frameSamples :: chunk
  pcmData :: "16 word list"
  hasAudio :: bool
  transmitted :: bool

section \<open>Session Controller: data\<close>

datatype ConnectionState = Disconnected | Connecting | Connected | Error

datatype ready_state = CONNECTING | OPEN | CLOSING | CLOSED

record LanguagePair =
  source :: string
  target :: string

datatype entry_type = partial | final

text \<open>
  \<open>TranscriptEntry\<close> of \<open>types.ts\<close>.  A property that is \<open>undefined\<close> is \<open>None\<close>; the
  handler copies \<open>data.original\<close> and \<open>data.timestamp\<close> without a default, so these two
  can be \<open>undefined\<close> as well.
\<close>

record TranscriptEntry =
  id_t :: string
  type_t :: entry_type
  original :: "string option"
  translated :: "string option"
  detectedLanguage :: "string option"
  confidence :: "rat option"
  timestamp :: "string option"
  hasTranslation :: "bool option"

text \<open>
  The object \<open>JSON.parse\<close> returns for an inbound text message, with the properties the
  handler reads, each at the type the message contract gives it; a property that is
  missing (or \<open>null\<close>) is \<open>None\<close>.
\<close>

record ws_data =
  d_type :: string
  d_original :: "string option"
  d_text :: "string option"
  d_translated :: "string option"
  d_detectedLanguage :: "string option"
  d_confidence :: "rat option"
  d_timestamp :: "string option"
  d_has_translation :: "bool option"
  d_message :: "string option"

text \<open>What is handed to \<open>WebSocket.send\<close>: a JSON control message or a binary frame.\<close>

datatype outbound =
    session_init (m_sessionId: string) (m_sampleRate: nat) (m_channels: nat)
                 (m_service: string) (m_language_pair: LanguagePair) (m_language_set: string)
  | update_language LanguagePair
  | ping
  | audio "16 word list"

text \<open>
  The calls a handler makes on its collaborators, in the order it makes them: the callback
  props of the component, the methods of a socket (sockets are numbered), and the two
  continuations of the promise \<open>connectWebSocket\<close> returns for a socket.
\<close>

datatype effect =
    ConnectionChange ConnectionState
  | SessionStart string
  | Send nat outbound
  | Close nat "(nat \<times> string) option"
  | Resolve nat
  | Reject string

text \<open>
  The state of the \<open>App\<close> component (\<open>connectionState\<close>, \<open>transcripts\<close>, \<open>sessionId\<close>),
  the state and the refs of \<open>AudioCapture\<close> (a ref to a platform object is \<open>True\<close> when it
  is not \<open>null\<close>; \<open>websocketRef\<close> holds the number of its socket), and what the handlers
  read from the platform: the \<open>readyState\<close> of every socket, whether the script processor
  is connected in the audio graph (\<open>connect\<close> and \<open>disconnect\<close> of the node; a run delivers
  chunks to \<open>onaudioprocess\<close> only while it is), the number the next \<open>new WebSocket\<close>
  gets, and the sockets whose connection the platform has to fail, because \<open>close\<close> was
  called on them while they were connecting.  \<open>recordedChunksRef\<close> is the number of recorded
  blobs.  \<open>effects\<close> is the log of calls, oldest first.
\<close>

record app_state =
  connectionState :: ConnectionState
  transcripts :: "TranscriptEntry list"
  sessionId :: string
  isCapturing :: bool
  isWebSocketConnected :: bool
  error :: string
  isRecording :: bool
  recordedAudioUrl :: string
  mediaStreamRef :: bool
  audioContextRef :: bool
  processorRef :: bool
  websocketRef :: "nat option"
  sessionIdRef :: string
  audioLevelIntervalRef :: bool
  testAudioIntervalRef :: bool
  animationFrameRef :: bool
  frameBufferRef :: "chunk list"
  mediaRecorderRef :: bool
  recordedChunksRef :: nat
  readyState :: "nat \<Rightarrow> ready_state"
  processorConnected :: bool
  nextSocket :: nat
  failing :: "nat list"
  effects :: "effect list"

section \<open>Frame Accumulator: operations\<close>

text \<open>
  The conversion loop over one frame, \<^verbatim>\<open>for (let i = 0; i < FRAME_SIZE; i++)\<close>:
  the samples still to visit, the part of \<open>pcmData\<close> already written, and \<open>hasAudio\<close>.
\<close>

fun convert_loop :: "chunk \<Rightarrow> 16 word list \<Rightarrow> bool \<Rightarrow> 16 word list \<times> bool" where
  "convert_loop [] pcm has = (pcm, has)"
| "convert_loop (x # xs) pcm has =
     (let sample = clamp_sample x;
          pcm' = pcm @ [ToInt16 (scale_sample sample)];
          has' = (if above_threshold sample then True else has)
      in convert_loop xs pcm' has')"

text \<open>
  \<^verbatim>\<open>while (accumulatedSamples.length >= FRAME_SIZE)\<close>: splice a frame off the front,
  convert it, skip it when it is silent, send it when the socket is open.  The first
  argument is the outcome of \<^verbatim>\<open>websocketRef.current?.readyState === WebSocket.OPEN\<close>,
  which no statement of the loop changes.  The result is the list of the turns and the
  samples that are left.
\<close>

function frame_loop :: "bool \<Rightarrow> chunk \<Rightarrow> frame_result list \<times> chunk" where
  "frame_loop isOpen accumulatedSamples =
     (if FRAME_SIZE \<le> length accumulatedSamples then
        let frame = take FRAME_SIZE accumulatedSamples;
            rest = drop FRAME_SIZE accumulatedSamples;
            (pcm, has) = convert_loop frame [] False;
            turn = \<lparr>frameSamples = frame, pcmData = pcm, hasAudio = has,
                    transmitted = (has \<and> isOpen)\<rparr>;
            (turns, residual) = frame_loop isOpen rest
        in (turn # turns, residual)
      else ([], accumulatedSamples))"
  by pat_completeness auto
termination
  by (relation "measure (\<lambda>(isOpen, acc). length acc)") (auto simp: FRAME_SIZE_def)

declare frame_loop.simps [simp del]

text \<open>
  \<open>processAudioFrames\<close>.  Nothing happens without a socket or with an empty buffer, or
  while fewer than \<open>FRAME_SIZE\<close> samples are buffered; otherwise the buffer is emptied into
  one array, the frame loop runs, and the samples left over are put back as one chunk.
\<close>

definition processAudioFrames :: "app_state \<Rightarrow> frame_result list \<times> app_state" where
  "processAudioFrames st =
     (case websocketRef st of
        None \<Rightarrow> ([], st)
      | Some ws \<Rightarrow>
          if frameBufferRef st = [] then ([], st)
          else
            let totalSamples = sum_list (map length (frameBufferRef st)) in
            if FRAME_SIZE \<le> totalSamples then
              let accumulatedSamples = concat (frameBufferRef st);
                  (turns, residual) = frame_loop (readyState st ws = OPEN) accumulatedSamples
              in (turns,
                  st\<lparr>frameBufferRef := (if residual \<noteq> [] then [residual] else []),
                     effects := effects st @
                       map (\<lambda>t. Send ws (audio (pcmData t))) (filter transmitted turns)\<rparr>)
            else ([], st))"

text \<open>
  The \<open>onaudioprocess\<close> callback of the script processor: the chunk is copied into the
  buffer and processed only while the socket of \<open>websocketRef\<close> is open.
\<close>

definition socket_open :: "app_state \<Rightarrow> bool" where
  "socket_open st = (case websocketRef st of None \<Rightarrow> False | Some ws \<Rightarrow> readyState st ws = OPEN)"

definition onaudioprocess :: "chunk \<Rightarrow> app_state \<Rightarrow> frame_result list \<times> app_state" where
  "onaudioprocess inputData st =
     (if socket_open st
      then processAudioFrames (st\<lparr>frameBufferRef := frameBufferRef st @ [inputData]\<rparr>)
      else ([], st))"

text \<open>The audio engine calling the callback once for each chunk of a sequence.\<close>

fun feed :: "chunk list \<Rightarrow> app_state \<Rightarrow> frame_result list \<times> app_state" where
  "feed [] st = ([], st)"
| "feed (c # cs) st =
     (let (turns, st') = onaudioprocess c st;
          (turns', st'') = feed cs st'
      in (turns @ turns', st''))"

text \<open>The number of samples the buffer holds.\<close>

definition buffered :: "app_state \<Rightarrow> nat" where
  "buffered st = sum_list (map length (frameBufferRef st))"

text \<open>The binary frames handed to \<open>send\<close> according to a log of calls, oldest first.\<close>

fun audio_sent :: "effect list \<Rightarrow> 16 word list list" where
  "audio_sent [] = []"
| "audio_sent (Send ws (audio pcm) # es) = pcm # audio_sent es"
| "audio_sent (e # es) = audio_sent es"

section \<open>Session Controller: operations\<close>

text \<open>The three callbacks \<open>App\<close> passes to \<open>AudioCapture\<close>.\<close>

definition onConnectionChange :: "ConnectionState \<Rightarrow> app_state \<Rightarrow> app_state" where
  "onConnectionChange s st =
     st\<lparr>connectionState := s, effects := effects st @ [ConnectionChange s]\<rparr>"

definition onTranscriptUpdate :: "TranscriptEntry \<Rightarrow> app_state \<Rightarrow> app_state" where
  "onTranscriptUpdate entry st = st\<lparr>transcripts := transcripts st @ [entry]\<rparr>"

definition onSessionStart :: "string \<Rightarrow> app_state \<Rightarrow> app_state" where
  "onSessionStart sid st =
     st\<lparr>sessionId := sid, transcripts := [], effects := effects st @ [SessionStart sid]\<rparr>"

text \<open>
  \<^verbatim>\<open>`session_${Date.now()}_${Math.random().toString(36).substr(2, 9)}`\<close>: the clock
  reading (milliseconds, written in decimal) and the random suffix are inputs.
\<close>

definition digit :: "nat \<Rightarrow> char" where
  "digit d = ''0123456789'' ! d"

fun decimal :: "nat \<Rightarrow> string" where
  "decimal n = (if n < 10 then [digit n] else decimal (n div 10) @ [digit (n mod 10)])"

declare decimal.simps [simp del]

definition generateSessionId :: "nat \<Rightarrow> string \<Rightarrow> string" where
  "generateSessionId now rnd = ''session_'' @ decimal now @ ''_'' @ rnd"

text \<open>
  \<open>WebSocket.close\<close>: the call is logged; a socket that is connecting or open starts
  closing at once.  On a socket that is still connecting the call makes the platform fail
  the connection: the socket is noted, and its error and close events follow once the
  handler that called \<open>close\<close> has returned (\<open>dispatch\<close> below).
\<close>

definition socket_close :: "nat \<Rightarrow> (nat \<times> string) option \<Rightarrow> app_state \<Rightarrow> app_state" where
  "socket_close ws args st =
     st\<lparr>readyState := (readyState st)
            (ws := (if readyState st ws = CONNECTING \<or> readyState st ws = OPEN
                    then CLOSING else readyState st ws)),
        failing := (if readyState st ws = CONNECTING then failing st @ [ws] else failing st),
        effects := effects st @ [Close ws args]\<rparr>"

text \<open>
  \<open>connectWebSocket\<close>, the synchronous part: report \<open>connecting\<close> and create the socket,
  which gets the next number.  The argument is the message of the error the constructor
  throws, if it throws.
\<close>

definition connectWebSocket :: "string option \<Rightarrow> app_state \<Rightarrow> app_state" where
  "connectWebSocket ctorError st =
     (let st1 = (onConnectionChange Connecting st)\<lparr>isWebSocketConnected := False\<rparr>
      in case ctorError of
           None \<Rightarrow>
             st1\<lparr>readyState := (readyState st1)(nextSocket st1 := CONNECTING),
                 nextSocket := Suc (nextSocket st1)\<rparr>
         | Some e \<Rightarrow>
             (let st2 = (onConnectionChange Error st1)
                          \<lparr>isWebSocketConnected := False,
                           error := ''Failed to create Azure Speech WebSocket connection''\<rparr>
              in st2\<lparr>effects := effects st2 @ [Reject e]\<rparr>))"

text \<open>
  \<open>ws.onopen\<close> of socket \<open>ws\<close>.  \<open>lp\<close> is the language pair the closure holds;
  \<open>sendError\<close> is the message of the error \<open>ws.send\<close> throws, if it throws.
\<close>

definition ws_onopen ::
  "nat \<Rightarrow> nat \<Rightarrow> string \<Rightarrow> LanguagePair \<Rightarrow> string option \<Rightarrow> app_state \<Rightarrow> app_state" where
  "ws_onopen ws now rnd lp sendError st =
     (let st1 = (onConnectionChange Connected st)
                  \<lparr>isWebSocketConnected := True, websocketRef := Some ws\<rparr>;
          sid = generateSessionId now rnd;
          st2 = onSessionStart sid (st1\<lparr>sessionIdRef := sid\<rparr>)
      in case sendError of
           None \<Rightarrow>
             st2\<lparr>effects := effects st2 @
                   [Send ws (session_init sid SAMPLE_RATE CHANNELS ''azure_speech'' lp ''indian''),
                    Resolve ws]\<rparr>
         | Some e \<Rightarrow> st2\<lparr>effects := effects st2 @ [Reject e]\<rparr>)"

definition ws_onerror :: "nat \<Rightarrow> app_state \<Rightarrow> app_state" where
  "ws_onerror ws st =
     (let st1 = (onConnectionChange Error st)
                  \<lparr>isWebSocketConnected := False, error := ''WebSocket connection failed''\<rparr>
      in st1\<lparr>effects := effects st1 @ [Reject ''WebSocket connection failed'']\<rparr>)"

definition ws_onclose :: "nat \<Rightarrow> app_state \<Rightarrow> app_state" where
  "ws_onclose ws st =
     (if websocketRef st = Some ws
      then (onConnectionChange Disconnected st)
             \<lparr>isWebSocketConnected := False, isCapturing := False\<rparr>
      else st)"

text \<open>The callback of \<^verbatim>\<open>setTimeout(..., 10000)\<close> for socket \<open>ws\<close>.\<close>

definition connection_timeout :: "nat \<Rightarrow> app_state \<Rightarrow> app_state" where
  "connection_timeout ws st =
     (if readyState st ws \<noteq> OPEN
      then (let st1 = socket_close ws None st
            in st1\<lparr>effects := effects st1 @ [Reject ''WebSocket connection timeout'']\<rparr>)
      else st)"

definition disconnectWebSocket :: "app_state \<Rightarrow> app_state" where
  "disconnectWebSocket st =
     (let st1 = (case websocketRef st of
                   Some ws \<Rightarrow>
                     (socket_close ws (Some (1000, ''User disconnected'')) st)
                       \<lparr>websocketRef := None\<rparr>
                 | None \<Rightarrow> st)
      in onConnectionChange Disconnected
           (st1\<lparr>sessionIdRef := [], isWebSocketConnected := False\<rparr>))"

text \<open>
  The \<open>catch\<close> block of \<open>startAudioCapture\<close>, entered (among others) when the promise
  of \<open>connectWebSocket\<close> is rejected; \<open>msg\<close> is the message of the error caught.
\<close>

definition startAudioCapture_catch :: "string \<Rightarrow> app_state \<Rightarrow> app_state" where
  "startAudioCapture_catch msg st =
     (let st1 = (case websocketRef st of
                   Some ws \<Rightarrow>
                     (socket_close ws (Some (1000, ''Setup failed'')) st)\<lparr>websocketRef := None\<rparr>
                 | None \<Rightarrow> st)
      in (onConnectionChange Error (st1\<lparr>error := msg\<rparr>))\<lparr>isCapturing := False\<rparr>)"

text \<open>
  The end of the \<open>try\<close> block of \<open>startAudioCapture\<close>: the stream, the audio context and
  the script processor are stored in their refs, the processor is connected, and capture
  is flagged.
\<close>

definition startAudioCapture_setup :: "app_state \<Rightarrow> app_state" where
  "startAudioCapture_setup st =
     st\<lparr>mediaStreamRef := True, audioContextRef := True, processorRef := True,
        processorConnected := True, isCapturing := True\<rparr>"

text \<open>The effect on \<open>languagePair\<close> and the keep-alive timer.\<close>

definition languagePair_changed :: "LanguagePair \<Rightarrow> app_state \<Rightarrow> app_state" where
  "languagePair_changed lp st =
     (case websocketRef st of
        Some ws \<Rightarrow>
          if readyState st ws = OPEN \<and> sessionIdRef st \<noteq> []
          then st\<lparr>effects := effects st @ [Send ws (update_language lp)]\<rparr> else st
      | None \<Rightarrow> st)"

definition ping_tick :: "app_state \<Rightarrow> app_state" where
  "ping_tick st =
     (case websocketRef st of
        Some ws \<Rightarrow>
          if readyState st ws = OPEN then st\<lparr>effects := effects st @ [Send ws ping]\<rparr> else st
      | None \<Rightarrow> st)"

section \<open>Stopping capture\<close>

text \<open>\<open>stopAudioCapture\<close>, statement by statement, in the order of the source.\<close>

definition stop_mediaStream :: "app_state \<Rightarrow> app_state" where
  "stop_mediaStream st = (if mediaStreamRef st then st\<lparr>mediaStreamRef := False\<rparr> else st)"

definition stop_processor :: "app_state \<Rightarrow> app_state" where
  "stop_processor st =
     (if processorRef st then st\<lparr>processorConnected := False, processorRef := False\<rparr> else st)"

definition stop_intervals :: "app_state \<Rightarrow> app_state" where
  "stop_intervals st =
     (let st1 = (if audioLevelIntervalRef st then st\<lparr>audioLevelIntervalRef := False\<rparr> else st)
      in if testAudioIntervalRef st1 then st1\<lparr>testAudioIntervalRef := False\<rparr> else st1)"

definition stop_animationFrame :: "app_state \<Rightarrow> app_state" where
  "stop_animationFrame st =
     (if animationFrameRef st then st\<lparr>animationFrameRef := False\<rparr> else st)"

definition stop_audioContext :: "app_state \<Rightarrow> app_state" where
  "stop_audioContext st = (if audioContextRef st then st\<lparr>audioContextRef := False\<rparr> else st)"

definition stop_frameBuffer :: "app_state \<Rightarrow> app_state" where
  "stop_frameBuffer st = st\<lparr>frameBufferRef := []\<rparr>"

definition stop_mediaRecorder :: "app_state \<Rightarrow> app_state" where
  "stop_mediaRecorder st = (if mediaRecorderRef st then st\<lparr>mediaRecorderRef := False\<rparr> else st)"

definition stop_recordedAudio :: "app_state \<Rightarrow> app_state" where
  "stop_recordedAudio st =
     (let st1 = (if recordedAudioUrl st \<noteq> [] then st\<lparr>recordedAudioUrl := []\<rparr> else st)
      in st1\<lparr>recordedChunksRef := 0, isRecording := False\<rparr>)"

definition stop_isCapturing :: "app_state \<Rightarrow> app_state" where
  "stop_isCapturing st = st\<lparr>isCapturing := False\<rparr>"

definition stop_steps :: "(app_state \<Rightarrow> app_state) list" where
  "stop_steps =
     [stop_mediaStream, stop_processor, stop_intervals, stop_animationFrame,
      stop_audioContext, stop_frameBuffer, stop_mediaRecorder, stop_recordedAudio,
      stop_isCapturing]"

definition run_steps :: "(app_state \<Rightarrow> app_state) list \<Rightarrow> app_state \<Rightarrow> app_state" where
  "run_steps fs st = foldl (\<lambda>s f. f s) st fs"

definition stopAudioCapture :: "app_state \<Rightarrow> app_state" where
  "stopAudioCapture st = run_steps stop_steps st"

section \<open>Transcript Assembler\<close>

text \<open>
  The operator \<open>||\<close> on a property that is a string or missing: the left operand when it
  is truthy (present and not the empty string), the right operand otherwise.
\<close>

definition truthy :: "string option \<Rightarrow> bool" where
  "truthy v = (case v of None \<Rightarrow> False | Some s \<Rightarrow> s \<noteq> [])"

definition js_or :: "string option \<Rightarrow> string option \<Rightarrow> string option" where
  "js_or a b = (if truthy a then a else b)"

text \<open>\<^verbatim>\<open>data.confidence || 0.9\<close>: a number is truthy unless it is 0.\<close>

definition confidence_or_default :: "rat option \<Rightarrow> rat option" where
  "confidence_or_default c =
     (case c of None \<Rightarrow> Some (9 / 10) | Some r \<Rightarrow> if r \<noteq> 0 then Some r else Some (9 / 10))"

text \<open>
  \<open>handleAzureWebSocketMessage\<close>.  \<open>now\<close> and \<open>rnd\<close> are the clock reading and the random
  suffix that go into the identifier of an entry.
\<close>

definition handleAzureWebSocketMessage ::
  "nat \<Rightarrow> string \<Rightarrow> ws_data \<Rightarrow> app_state \<Rightarrow> app_state" where
  "handleAzureWebSocketMessage now rnd data st =
     (if d_type data = ''partial_transcript'' then
        onTranscriptUpdate
          \<lparr>id_t = ''partial_'' @ decimal now @ ''_'' @ rnd,
           type_t = partial,
           original = js_or (d_original data) (d_text data),
           translated = js_or (d_translated data) (d_text data),
           detectedLanguage = None,
           confidence = None,
           timestamp = d_timestamp data,
           hasTranslation = Some (d_has_translation data = Some True)\<rparr> st
      else if d_type data = ''final_transcript'' then
        onTranscriptUpdate
          \<lparr>id_t = ''final_'' @ decimal now @ ''_'' @ rnd,
           type_t = final,
           original = d_original data,
           translated = js_or (d_translated data) (d_original data),
           detectedLanguage = js_or (d_detectedLanguage data) (Some ''unknown''),
           confidence = confidence_or_default (d_confidence data),
           timestamp = d_timestamp data,
           hasTranslation = None\<rparr> st
      else if d_type data = ''session_confirmed'' then st
      else if d_type data = ''connection_status'' then st
      else if d_type data = ''ack'' then st
      else if d_type data = ''error'' then
        onConnectionChange Error
          (st\<lparr>error := ''Azure Speech: '' @
                  (case d_message data of Some m \<Rightarrow> m | None \<Rightarrow> ''undefined'')\<rparr>)
      else st)"

text \<open>\<open>ws.onmessage\<close>: a message that does not parse (\<open>None\<close>) is logged and dropped.\<close>

definition ws_onmessage :: "nat \<Rightarrow> string \<Rightarrow> ws_data option \<Rightarrow> app_state \<Rightarrow> app_state" where
  "ws_onmessage now rnd parsed st =
     (case parsed of None \<Rightarrow> st | Some data \<Rightarrow> handleAzureWebSocketMessage now rnd data st)"

subsection \<open>The projections of \<open>TranscriptDisplay\<close>\<close>

text \<open>\<^verbatim>\<open>text.split(' ')\<close> and \<^verbatim>\<open>words.join(' ')\<close>.\<close>

fun split_space :: "string \<Rightarrow> string list" where
  "split_space [] = [[]]"
| "split_space (c # cs) =
     (if c = CHR '' '' then [] # split_space cs
      else (case split_space cs of w # ws \<Rightarrow> (c # w) # ws | [] \<Rightarrow> [[c]]))"

fun join_space :: "string list \<Rightarrow> string" where
  "join_space [] = []"
| "join_space [w] = w"
| "join_space (w # ws) = w @ '' '' @ join_space ws"

text \<open>
  \<^verbatim>\<open>if (words.length > 50) return words.slice(-50).join(' ') + '...'\<close>, else the text
  itself.
\<close>

definition limit_words :: "string \<Rightarrow> string" where
  "limit_words txt =
     (let words = split_space txt
      in if 50 < length words
         then join_space (drop (length words - 50) words) @ ''...''
         else txt)"

text \<open>
  The translation an entry has to show:
  \<^verbatim>\<open>latest.translated && latest.translated !== latest.original\<close>.
\<close>

definition distinct_translation :: "TranscriptEntry \<Rightarrow> bool" where
  "distinct_translation e = (truthy (translated e) \<and> translated e \<noteq> original e)"

definition limit_translated :: "TranscriptEntry \<Rightarrow> string" where
  "limit_translated e = (case translated e of Some t \<Rightarrow> limit_words t | None \<Rightarrow> [])"

text \<open>
  The effect that keeps \<open>currentPartial\<close>: the word-limited original of the latest
  partial entry; unchanged while there is no partial entry.  \<open>split\<close> on an original that
  is \<open>undefined\<close> throws, which is the result \<open>None\<close>.
\<close>

definition update_currentPartial :: "string \<Rightarrow> TranscriptEntry list \<Rightarrow> string option" where
  "update_currentPartial currentPartial ts =
     (let partials = filter (\<lambda>t. type_t t = partial) ts
      in if partials \<noteq> [] then
           (case original (last partials) of
              None \<Rightarrow> None
            | Some originalText \<Rightarrow> Some (limit_words originalText))
         else Some currentPartial)"

definition getCurrentTranslatedPartial :: "string \<Rightarrow> TranscriptEntry list \<Rightarrow> string" where
  "getCurrentTranslatedPartial currentPartial ts =
     (if currentPartial \<noteq> [] then
        (let partials = filter (\<lambda>t. type_t t = partial) ts;
             finalTranscripts = filter (\<lambda>t. type_t t = final) ts
         in if partials \<noteq> [] \<and> distinct_translation (last partials)
            then limit_translated (last partials)
            else if finalTranscripts \<noteq> [] \<and> distinct_translation (last finalTranscripts)
            then limit_translated (last finalTranscripts)
            else [])
      else [])"

section \<open>Runs of the component\<close>

text \<open>
  The platform failing the connection of a socket that was closed while connecting: the
  socket is closed, and its error event and then its close event are delivered.
  \<open>dispatch\<close> does so for every socket noted by the handler that has just returned.
\<close>

definition fail_connection :: "nat \<Rightarrow> app_state \<Rightarrow> app_state" where
  "fail_connection ws st =
     ws_onclose ws (ws_onerror ws (st\<lparr>readyState := (readyState st)(ws := CLOSED)\<rparr>))"

definition dispatch :: "app_state \<Rightarrow> app_state" where
  "dispatch st = foldl (\<lambda>s ws. fail_connection ws s) (st\<lparr>failing := []\<rparr>) (failing st)"

text \<open>
  The calls the platform and the user make on the component: each constructor carries the
  inputs of the handler it stands for.  \<open>SocketState\<close> is the platform changing the
  \<open>readyState\<close> of a socket.  \<open>react\<close> is the handler of an event; \<open>handle\<close> is the handler
  followed by the events the platform owes for it.
\<close>

datatype event =
    AudioProcess chunk
  | StartCaptureSetup
  | StartCaptureFailed string
  | StopAudioCapture
  | ConnectWebSocket "string option"
  | WsOpen nat nat string LanguagePair "string option"
  | WsMessage nat string "ws_data option"
  | WsError nat
  | WsClose nat
  | ConnectionTimeout nat
  | DisconnectWebSocket
  | LanguagePairChanged LanguagePair
  | PingTick
  | SocketState nat ready_state

fun react :: "event \<Rightarrow> app_state \<Rightarrow> app_state" where
  "react (AudioProcess c) st = (if processorConnected st then snd (onaudioprocess c st) else st)"
| "react StartCaptureSetup st = startAudioCapture_setup st"
| "react (StartCaptureFailed msg) st = startAudioCapture_catch msg st"
| "react StopAudioCapture st = stopAudioCapture st"
| "react (ConnectWebSocket ctorError) st = connectWebSocket ctorError st"
| "react (WsOpen ws now rnd lp sendError) st = ws_onopen ws now rnd lp sendError st"
| "react (WsMessage now rnd parsed) st = ws_onmessage now rnd parsed st"
| "react (WsError ws) st = ws_onerror ws st"
| "react (WsClose ws) st = ws_onclose ws st"
| "react (ConnectionTimeout ws) st = connection_timeout ws st"
| "react DisconnectWebSocket st = disconnectWebSocket st"
| "react (LanguagePairChanged lp) st = languagePair_changed lp st"
| "react PingTick st = ping_tick st"
| "react (SocketState ws rs) st = st\<lparr>readyState := (readyState st)(ws := rs)\<rparr>"

definition handle :: "event \<Rightarrow> app_state \<Rightarrow> app_state" where
  "handle e st = dispatch (react e st)"

fun run :: "event list \<Rightarrow> app_state \<Rightarrow> app_state" where
  "run [] st = st"
| "run (e # es) st = run es (handle e st)"

text \<open>The component as it is mounted: the initial values of its state and refs.\<close>

definition initial_state :: app_state where
  "initial_state =
     \<lparr>connectionState = Disconnected, transcripts = [], sessionId = [],
      isCapturing = False, isWebSocketConnected = False, error = [],
      isRecording = False, recordedAudioUrl = [],
      mediaStreamRef = False, audioContextRef = False, processorRef = False,
      websocketRef = None, sessionIdRef = [],
      audioLevelIntervalRef = False, testAudioIntervalRef = False, animationFrameRef = False,
      frameBufferRef = [], mediaRecorderRef = False, recordedChunksRef = 0,
      readyState = (\<lambda>ws. CLOSED), processorConnected = False, nextSocket = 0,
      failing = [], effects = []\<rparr>"

section \<open>Example states and inputs\<close>

text \<open>The component with socket 0 in its ref and every socket open.\<close>

definition open_state :: app_state where
  "open_state = initial_state\<lparr>websocketRef := Some 0, readyState := (\<lambda>ws. OPEN)\<rparr>"

text \<open>A chunk of two frames: 2048 samples of 0.005 followed by 2048 samples of 0.5.\<close>

definition quiet_then_loud :: chunk where
  "quiet_then_loud = replicate 2048 (Num (1 / 200)) @ replicate 2048 (Num (1 / 2))"

text \<open>The language pair \<open>App\<close> starts with.\<close>

definition auto_en :: LanguagePair where
  "auto_en = \<lparr>source = ''auto'', target = ''en''\<rparr>"

text \<open>
  The component after a connect request; after the socket then opened; and after capture
  then started and the callback delivered a chunk of two samples.
\<close>

definition connecting_state :: app_state where
  "connecting_state = run [ConnectWebSocket None] initial_state"

definition connected_state :: app_state where
  "connected_state =
     run [ConnectWebSocket None, SocketState 0 OPEN,
          WsOpen 0 1700000000000 ''k3x9q2m1z'' auto_en None] initial_state"

definition capturing_state :: app_state where
  "capturing_state =
     run [ConnectWebSocket None, SocketState 0 OPEN,
          WsOpen 0 1700000000000 ''k3x9q2m1z'' auto_en None,
          StartCaptureSetup, AudioProcess [Num (1 / 2), Num (1 / 4)]] initial_state"

text \<open>
  Inbound messages: a final transcript without translation, language or a confidence other
  than 0; a partial transcript without translation; a final transcript with all of them.
\<close>

definition final_hello :: ws_data where
  "final_hello =
     \<lparr>d_type = ''final_transcript'', d_original = Some ''hello'', d_text = None,
      d_translated = None, d_detectedLanguage = None, d_confidence = Some 0,
      d_timestamp = Some ''2024-01-01T00:00:00Z'', d_has_translation = None,
      d_message = None\<rparr>"

definition partial_hello :: ws_data where
  "partial_hello =
     \<lparr>d_type = ''partial_transcript'', d_original = Some ''hello'', d_text = Some ''hello'',
      d_translated = None, d_detectedLanguage = None, d_confidence = None,
      d_timestamp = Some ''2024-01-01T00:00:00Z'', d_has_translation = None,
      d_message = None\<rparr>"

definition final_hola :: ws_data where
  "final_hola =
     \<lparr>d_type = ''final_transcript'', d_original = Some ''hello'', d_text = None,
      d_translated = Some ''hola'', d_detectedLanguage = Some ''en'',
      d_confidence = Some (19 / 20), d_timestamp = Some ''2024-01-01T00:00:01Z'',
      d_has_translation = None, d_message = None\<rparr>"

text \<open>The component after a first session received the final transcript without translation.\<close>

definition first_session :: app_state where
  "first_session =
     run [ConnectWebSocket None, SocketState 0 OPEN,
          WsOpen 0 1700000000000 ''k3x9q2m1z'' auto_en None,
          WsMessage 1700000001000 ''a1b2c3d4e'' (Some final_hello)] initial_state"

text \<open>The first session after the remote side closed its socket.\<close>

definition closed_session :: app_state where
  "closed_session = run [SocketState 0 CLOSED, WsClose 0] first_session"

text \<open>
  A session in which capture was started, the remote side closed the socket, and the
  component connected again; capture was not started again.
\<close>

definition resumed_session :: app_state where
  "resumed_session =
     run [ConnectWebSocket None, SocketState 0 OPEN,
          WsOpen 0 1700000000000 ''k3x9q2m1z'' auto_en None,
          StartCaptureSetup,
          SocketState 0 CLOSED, WsClose 0,
          ConnectWebSocket None, SocketState 1 OPEN,
          WsOpen 1 1700000060000 ''z9y8x7w6v'' auto_en None] initial_state"

text \<open>Two more final transcripts, with the translations \<open>uno\<close> and \<open>dos\<close>.\<close>

definition final_uno :: ws_data where
  "final_uno =
     \<lparr>d_type = ''final_transcript'', d_original = Some ''one'', d_text = None,
      d_translated = Some ''uno'', d_detectedLanguage = Some ''en'',
      d_confidence = Some (19 / 20), d_timestamp = Some ''2024-01-01T00:00:02Z'',
      d_has_translation = None, d_message = None\<rparr>"

definition final_dos :: ws_data where
  "final_dos =
     \<lparr>d_type = ''final_transcript'', d_original = Some ''two'', d_text = None,
      d_translated = Some ''dos'', d_detectedLanguage = Some ''en'',
      d_confidence = Some (19 / 20), d_timestamp = Some ''2024-01-01T00:00:03Z'',
      d_has_translation = None, d_message = None\<rparr>"

text \<open>
  The log after the partial transcript without translation and then the two finals
  arrived, in that order.
\<close>

definition uno_dos_log :: "TranscriptEntry list" where
  "uno_dos_log =
     transcripts
       (run [WsMessage 1700000001000 ''a1b2c3d4e'' (Some partial_hello),
             WsMessage 1700000002000 ''q1w2e3r4t'' (Some final_uno),
             WsMessage 1700000003000 ''m5n6b7v8c'' (Some final_dos)] initial_state)"

section \<open>Properties of the Sample Converter\<close>

lemma clamp_sample_Num: "clamp_sample (Num r) = Num (max (- 1) (min 1 r))"
  by (simp add: clamp_sample_def Math_min_def Math_max_def max_def min_def)

lemma truncate_scaled:
  assumes "- 1 \<le> c" and "c \<le> 1"
  shows "- 32768 \<le> js_truncate (if c < 0 then c * 32768 else c * 32767)"
    and "js_truncate (if c < 0 then c * 32768 else c * 32767) < 32768"
proof -
  show "- 32768 \<le> js_truncate (if c < 0 then c * 32768 else c * 32767)"
    using assms by (auto simp: js_truncate_def le_floor_iff floor_le_iff)
  show "js_truncate (if c < 0 then c * 32768 else c * 32767) < 32768"
    using assms by (auto simp: js_truncate_def floor_less_iff less_floor_iff) linarith+
qed

lemma sint_pcm_of_sample_Num:
  "sint (pcm_of_sample (Num r)) =
     js_truncate (if max (- 1) (min 1 r) < 0 then max (- 1) (min 1 r) * 32768
               else max (- 1) (min 1 r) * 32767)"
proof -
  let ?c = "max (- 1) (min 1 r)"
  have b: "- 1 \<le> ?c" "?c \<le> 1" by simp_all
  have "ToInt16 (scale_sample (Num c)) =
          word_of_int (js_truncate (if c < 0 then c * 32768 else c * 32767))" for c
    by (simp add: scale_sample_def)
  then have "pcm_of_sample (Num r) = word_of_int (js_truncate (if ?c < 0 then ?c * 32768 else ?c * 32767))"
    unfolding pcm_of_sample_def clamp_sample_Num .
  then show ?thesis
    using truncate_scaled [OF b]
    by (simp add: sint_sbintrunc' signed_take_bit_int_eq_self)
qed

lemma clamp_sample_range:
  assumes "s \<noteq> NaN"
  shows "\<exists>c. clamp_sample s = Num c \<and> - 1 \<le> c \<and> c \<le> 1"
  using assms by (cases s) (simp_all add: clamp_sample_def Math_min_def Math_max_def)

lemma sint_pcm_of_clamped:
  assumes "clamp_sample s = Num c" and "- 1 \<le> c" and "c \<le> 1"
  shows "sint (pcm_of_sample s) = (if c < 0 then - \<lfloor>- (c * 32768)\<rfloor> else \<lfloor>c * 32767\<rfloor>)"
proof -
  have "pcm_of_sample s = word_of_int (js_truncate (if c < 0 then c * 32768 else c * 32767))"
    using assms(1) by (simp add: pcm_of_sample_def scale_sample_def)
  then have "sint (pcm_of_sample s) = js_truncate (if c < 0 then c * 32768 else c * 32767)"
    using truncate_scaled [OF assms(2,3)]
    by (simp add: sint_sbintrunc' signed_take_bit_int_eq_self)
  then show ?thesis by (simp add: js_truncate_def)
qed

text \<open>
  Claim C1 (as amended).  Every sample other than \<open>NaN\<close> is clamped to a finite value in
  \<open>[-1, 1]\<close> (for a finite sample, the nearest value of that interval); a negative clamped
  value is scaled by 32768, any other by 32767; the product is stored in the \<open>Int16Array\<close>
  truncated toward zero, and no wrap-around occurs.  In particular \<open>1.0\<close> becomes 32767,
  \<open>-1.0\<close> becomes \<open>-32768\<close> and \<open>0.0\<close> becomes 0.  The converter is a function of the sample
  alone.
\<close>

theorem sample_converter_truncates_toward_zero:
  "(s \<noteq> NaN \<longrightarrow>
      (\<exists>c. clamp_sample s = Num c \<and> - 1 \<le> c \<and> c \<le> 1 \<and>
           (\<forall>r. s = Num r \<longrightarrow> c = max (- 1) (min 1 r)) \<and>
           sint (pcm_of_sample s)
             = (if c < 0 then - \<lfloor>- (c * 32768)\<rfloor> else \<lfloor>c * 32767\<rfloor>)))
   \<and> sint (pcm_of_sample (Num 1)) = 32767
   \<and> sint (pcm_of_sample (Num (- 1))) = - 32768
   \<and> sint (pcm_of_sample (Num 0)) = 0"
proof -
  have a: "\<exists>c. clamp_sample s = Num c \<and> - 1 \<le> c \<and> c \<le> 1 \<and>
           (\<forall>r. s = Num r \<longrightarrow> c = max (- 1) (min 1 r)) \<and>
           sint (pcm_of_sample s)
             = (if c < 0 then - \<lfloor>- (c * 32768)\<rfloor> else \<lfloor>c * 32767\<rfloor>)"
    if "s \<noteq> NaN"
  proof -
    from clamp_sample_range [OF that] obtain c
      where c: "clamp_sample s = Num c" "- 1 \<le> c" "c \<le> 1" by blast
    have "\<forall>r. s = Num r \<longrightarrow> c = max (- 1) (min 1 r)"
      using c(1) by (auto simp: clamp_sample_Num)
    with c sint_pcm_of_clamped [OF c] show ?thesis by blast
  qed
  have "sint (pcm_of_sample (Num 1)) = 32767"
    unfolding sint_pcm_of_sample_Num by (simp add: js_truncate_def)
  moreover have "sint (pcm_of_sample (Num (- 1))) = - 32768"
    unfolding sint_pcm_of_sample_Num by (simp add: js_truncate_def)
  moreover have "sint (pcm_of_sample (Num 0)) = 0"
    unfolding sint_pcm_of_sample_Num by (simp add: js_truncate_def)
  ultimately show ?thesis using a by blast
qed

theorem sample_converter_truncates_toward_zero_witness:
  "Num (- 1 / 65536) \<noteq> NaN
   \<and> clamp_sample (Num (- 1 / 65536)) = Num (- 1 / 65536)
   \<and> sint (pcm_of_sample (Num (- 1 / 65536))) = - \<lfloor>- ((- 1 / 65536 :: rat) * 32768)\<rfloor>
   \<and> PosInf \<noteq> NaN \<and> clamp_sample PosInf = Num 1 \<and> sint (pcm_of_sample PosInf) = 32767"
proof -
  have c1: "clamp_sample (Num (- 1 / 65536)) = Num (- 1 / 65536)"
    by (simp add: clamp_sample_Num)
  have c2: "clamp_sample PosInf = Num 1"
    by (simp add: clamp_sample_def Math_min_def Math_max_def)
  from sample_converter_truncates_toward_zero [of "Num (- 1 / 65536)"] c1
  have a: "sint (pcm_of_sample (Num (- 1 / 65536))) = - \<lfloor>- ((- 1 / 65536 :: rat) * 32768)\<rfloor>"
    by auto
  from sample_converter_truncates_toward_zero [of PosInf] c2
  have b: "sint (pcm_of_sample PosInf) = 32767" by auto
  from a b c1 c2 show ?thesis by simp
qed

text \<open>
  Claim C1 as stated rounds a negative product toward \<open>-32768\<close>, that is downward, and
  clamps every sample.  The sample \<open>-2\<^sup>-\<^sup>1\<^sup>6\<close> scales to \<open>-0.5\<close>, which the store turns into
  0, whereas rounding downward gives \<open>-1\<close>; and \<open>NaN\<close> is not clamped, and stored as 0.
\<close>

theorem sample_converter_floor_counterexample:
  "sint (pcm_of_sample (Num (- 1 / 65536))) = 0 \<and>
   sint (pcm_of_sample (Num (- 1 / 65536))) \<noteq> \<lfloor>(- 1 / 65536 :: rat) * 32768\<rfloor> \<and>
   clamp_sample NaN = NaN \<and> pcm_of_sample NaN = 0"
proof -
  have a: "sint (pcm_of_sample (Num (- 1 / 65536))) = 0"
    unfolding sint_pcm_of_sample_Num by (simp add: js_truncate_def floor_eq_iff)
  have b: "\<lfloor>(- 1 / 65536 :: rat) * 32768\<rfloor> = - 1"
    by (simp add: floor_eq_iff)
  have c: "clamp_sample NaN = NaN" "pcm_of_sample NaN = 0"
    by (simp_all add: pcm_of_sample_def clamp_sample_def Math_min_def Math_max_def
          scale_sample_def)
  show ?thesis using a b c by simp
qed

text \<open>
  The literal \<open>0.01\<close> denotes the double \<open>5764607523034235 / 2\<^sup>5\<^sup>9\<close>, a little above
  \<open>1/100\<close>.  A single-precision value between \<open>2\<^sup>-\<^sup>7\<close> and \<open>2\<^sup>-\<^sup>6\<close> is a multiple of
  \<open>2\<^sup>-\<^sup>3\<^sup>0\<close>, and no such multiple lies between the two: on the samples of a
  \<open>Float32Array\<close> the comparison with \<open>SILENCE_THRESHOLD\<close> is the comparison the code
  makes.
\<close>

lemma silence_threshold_float32:
  "(SILENCE_THRESHOLD < of_int k / 2 ^ 30)
     = (5764607523034235 / 576460752303423488 < (of_int k / 2 ^ 30 :: rat))"
proof -
  have a: "(SILENCE_THRESHOLD < of_int k / 2 ^ 30) = (10737419 \<le> k)"
  proof -
    have "(SILENCE_THRESHOLD < of_int k / 2 ^ 30) = ((1073741824 :: rat) < of_int (100 * k))"
      by (simp add: SILENCE_THRESHOLD_def field_simps)
    also have "\<dots> = (1073741824 < 100 * k)"
      by (metis of_int_less_iff of_int_numeral)
    also have "\<dots> = (10737419 \<le> k)" by arith
    finally show ?thesis .
  qed
  have b: "(5764607523034235 / 576460752303423488 < (of_int k / 2 ^ 30 :: rat)) = (10737419 \<le> k)"
  proof -
    have "(5764607523034235 / 576460752303423488 < (of_int k / 2 ^ 30 :: rat))
            = ((5764607523034235 :: rat) < of_int (536870912 * k))"
      by (simp add: field_simps)
    also have "\<dots> = (5764607523034235 < 536870912 * k)"
      by (metis of_int_less_iff of_int_numeral)
    also have "\<dots> = (10737419 \<le> k)" by arith
    finally show ?thesis .
  qed
  show ?thesis using a b by simp
qed

section \<open>Properties of the Frame Accumulator\<close>

lemma convert_loop_eq:
  "convert_loop xs pcm has =
     (pcm @ map pcm_of_sample xs, has \<or> (\<exists>x\<in>set xs. above_threshold (clamp_sample x)))"
  by (induction xs arbitrary: pcm has) (auto simp: pcm_of_sample_def Let_def)

lemma frame_loop_spec:
  "frame_loop isOpen acc = (turns, residual) \<Longrightarrow>
     concat (map frameSamples turns) @ residual = acc \<and>
     length residual < FRAME_SIZE \<and>
     (\<forall>t\<in>set turns.
        length (frameSamples t) = FRAME_SIZE \<and>
        pcmData t = map pcm_of_sample (frameSamples t) \<and>
        hasAudio t = (\<exists>x\<in>set (frameSamples t). above_threshold (clamp_sample x)) \<and>
        transmitted t = (hasAudio t \<and> isOpen))"
proof (induction isOpen acc arbitrary: turns residual rule: frame_loop.induct)
  case (1 isOpen acc)
  show ?case
  proof (cases "FRAME_SIZE \<le> length acc")
    case False
    with "1.prems" show ?thesis
      by (simp add: frame_loop.simps [of isOpen acc])
  next
    case True
    obtain turns' residual' where rec: "frame_loop isOpen (drop FRAME_SIZE acc) = (turns', residual')"
      by (cases "frame_loop isOpen (drop FRAME_SIZE acc)")
    obtain pcm has where cv: "convert_loop (take FRAME_SIZE acc) [] False = (pcm, has)"
      by (cases "convert_loop (take FRAME_SIZE acc) [] False")
    have ih: "concat (map frameSamples turns') @ residual' = drop FRAME_SIZE acc \<and>
     length residual' < FRAME_SIZE \<and>
     (\<forall>t\<in>set turns'.
        length (frameSamples t) = FRAME_SIZE \<and>
        pcmData t = map pcm_of_sample (frameSamples t) \<and>
        hasAudio t = (\<exists>x\<in>set (frameSamples t). above_threshold (clamp_sample x)) \<and>
        transmitted t = (hasAudio t \<and> isOpen))"
      using "1.IH" [OF True refl refl refl cv [symmetric] refl rec] .
    from "1.prems" True rec cv
    have turns: "turns = \<lparr>frameSamples = take FRAME_SIZE acc, pcmData = pcm, hasAudio = has,
                    transmitted = (has \<and> isOpen)\<rparr> # turns'" and res: "residual = residual'"
      by (simp_all add: frame_loop.simps [of isOpen acc])
    from cv have pcm: "pcm = map pcm_of_sample (take FRAME_SIZE acc)"
      and has: "has = (\<exists>x\<in>set (take FRAME_SIZE acc). above_threshold (clamp_sample x))"
      by (simp_all add: convert_loop_eq)
    have "concat (map frameSamples turns) @ residual = take FRAME_SIZE acc @ drop FRAME_SIZE acc"
      using ih turns res by simp
    then have c1: "concat (map frameSamples turns) @ residual = acc" by simp
    show ?thesis using c1 ih turns res pcm has True by auto
  qed
qed

lemma buffered_concat: "buffered st = length (concat (frameBufferRef st))"
  by (simp add: buffered_def length_concat)

lemma processAudioFrames_spec:
  assumes "processAudioFrames st = (turns, st')" and "websocketRef st = Some ws"
  shows "concat (map frameSamples turns) @ concat (frameBufferRef st') = concat (frameBufferRef st)"
    and "buffered st' < FRAME_SIZE"
    and "\<forall>t\<in>set turns.
        length (frameSamples t) = FRAME_SIZE \<and>
        pcmData t = map pcm_of_sample (frameSamples t) \<and>
        hasAudio t = (\<exists>x\<in>set (frameSamples t). above_threshold (clamp_sample x)) \<and>
        transmitted t = (hasAudio t \<and> readyState st ws = OPEN)"
    and "effects st' = effects st @ map (\<lambda>t. Send ws (audio (pcmData t))) (filter transmitted turns)"
    and "websocketRef st' = websocketRef st" and "readyState st' = readyState st"
proof -
  let ?P = "concat (map frameSamples turns) @ concat (frameBufferRef st') = concat (frameBufferRef st)
    \<and> buffered st' < FRAME_SIZE
    \<and> (\<forall>t\<in>set turns.
        length (frameSamples t) = FRAME_SIZE \<and>
        pcmData t = map pcm_of_sample (frameSamples t) \<and>
        hasAudio t = (\<exists>x\<in>set (frameSamples t). above_threshold (clamp_sample x)) \<and>
        transmitted t = (hasAudio t \<and> readyState st ws = OPEN))
    \<and> effects st' = effects st @ map (\<lambda>t. Send ws (audio (pcmData t))) (filter transmitted turns)
    \<and> websocketRef st' = websocketRef st \<and> readyState st' = readyState st"
  have ?P
  proof (cases "frameBufferRef st \<noteq> [] \<and> FRAME_SIZE \<le> sum_list (map length (frameBufferRef st))")
    case False
    with assms have "turns = []" "st' = st"
      by (auto simp: processAudioFrames_def Let_def split: if_splits)
    moreover from False have "buffered st < FRAME_SIZE"
      by (auto simp: buffered_def FRAME_SIZE_def)
    ultimately show ?thesis by simp
  next
    case True
    obtain ts r where fl: "frame_loop (readyState st ws = OPEN) (concat (frameBufferRef st)) = (ts, r)"
      by (cases "frame_loop (readyState st ws = OPEN) (concat (frameBufferRef st))")
    from assms True fl have t: "turns = ts"
      and s: "st' = st\<lparr>frameBufferRef := (if r \<noteq> [] then [r] else []),
                     effects := effects st @
                       map (\<lambda>t. Send ws (audio (pcmData t))) (filter transmitted ts)\<rparr>"
      by (auto simp add: processAudioFrames_def Let_def)
    from s have br: "concat (frameBufferRef st') = r" by simp
    from frame_loop_spec [OF fl] t br show ?thesis
      by (simp add: buffered_concat s)
  qed
  then show "concat (map frameSamples turns) @ concat (frameBufferRef st') = concat (frameBufferRef st)"
    and "buffered st' < FRAME_SIZE"
    and "\<forall>t\<in>set turns.
        length (frameSamples t) = FRAME_SIZE \<and>
        pcmData t = map pcm_of_sample (frameSamples t) \<and>
        hasAudio t = (\<exists>x\<in>set (frameSamples t). above_threshold (clamp_sample x)) \<and>
        transmitted t = (hasAudio t \<and> readyState st ws = OPEN)"
    and "effects st' = effects st @ map (\<lambda>t. Send ws (audio (pcmData t))) (filter transmitted turns)"
    and "websocketRef st' = websocketRef st" and "readyState st' = readyState st"
    by blast+
qed

lemma audio_sent_append: "audio_sent (es @ fs) = audio_sent es @ audio_sent fs"
  by (induction es rule: audio_sent.induct) simp_all

lemma audio_sent_map: "audio_sent (map (\<lambda>t. Send ws (audio (f t))) ts) = map f ts"
  by (induction ts) simp_all

lemma onaudioprocess_spec:
  assumes "onaudioprocess c st = (turns, st')"
  shows "concat (map frameSamples turns) @ concat (frameBufferRef st')
           = concat (frameBufferRef st) @ (if socket_open st then c else [])"
    and "socket_open st \<Longrightarrow> buffered st' < FRAME_SIZE"
    and "buffered st < FRAME_SIZE \<Longrightarrow> buffered st' < FRAME_SIZE"
    and "\<forall>t\<in>set turns.
        length (frameSamples t) = FRAME_SIZE \<and>
        pcmData t = map pcm_of_sample (frameSamples t) \<and>
        transmitted t = (\<exists>x\<in>set (frameSamples t). above_threshold (clamp_sample x))"
    and "audio_sent (effects st') = audio_sent (effects st) @ map pcmData (filter transmitted turns)"
    and "websocketRef st' = websocketRef st" and "readyState st' = readyState st"
proof -
  let ?P = "concat (map frameSamples turns) @ concat (frameBufferRef st')
           = concat (frameBufferRef st) @ (if socket_open st then c else [])
    \<and> (socket_open st \<or> buffered st < FRAME_SIZE \<longrightarrow> buffered st' < FRAME_SIZE)
    \<and> (\<forall>t\<in>set turns.
        length (frameSamples t) = FRAME_SIZE \<and>
        pcmData t = map pcm_of_sample (frameSamples t) \<and>
        transmitted t = (\<exists>x\<in>set (frameSamples t). above_threshold (clamp_sample x)))
    \<and> audio_sent (effects st') = audio_sent (effects st) @ map pcmData (filter transmitted turns)
    \<and> websocketRef st' = websocketRef st \<and> readyState st' = readyState st"
  have ?P
  proof (cases "socket_open st")
    case False
    with assms show ?thesis by (simp add: onaudioprocess_def)
  next
    case True
    then obtain ws where ws: "websocketRef st = Some ws" and op: "readyState st ws = OPEN"
      by (auto simp: socket_open_def split: option.splits)
    let ?st = "st\<lparr>frameBufferRef := frameBufferRef st @ [c]\<rparr>"
    from assms True have p: "processAudioFrames ?st = (turns, st')"
      by (simp add: onaudioprocess_def)
    have w: "websocketRef ?st = Some ws" using ws by simp
    note sp = processAudioFrames_spec [OF p w]
    from sp(1) have "concat (map frameSamples turns) @ concat (frameBufferRef st')
           = concat (frameBufferRef st) @ c" by simp
    moreover from sp(3) op have "\<forall>t\<in>set turns.
        length (frameSamples t) = FRAME_SIZE \<and>
        pcmData t = map pcm_of_sample (frameSamples t) \<and>
        transmitted t = (\<exists>x\<in>set (frameSamples t). above_threshold (clamp_sample x))"
      by simp
    moreover from sp(4) have "audio_sent (effects st') = audio_sent (effects st) @ map pcmData (filter transmitted turns)"
      by (simp add: audio_sent_append audio_sent_map)
    ultimately show ?thesis using True sp(2) sp(5) sp(6) by simp
  qed
  then show "concat (map frameSamples turns) @ concat (frameBufferRef st')
           = concat (frameBufferRef st) @ (if socket_open st then c else [])"
    and "socket_open st \<Longrightarrow> buffered st' < FRAME_SIZE"
    and "buffered st < FRAME_SIZE \<Longrightarrow> buffered st' < FRAME_SIZE"
    and "\<forall>t\<in>set turns.
        length (frameSamples t) = FRAME_SIZE \<and>
        pcmData t = map pcm_of_sample (frameSamples t) \<and>
        transmitted t = (\<exists>x\<in>set (frameSamples t). above_threshold (clamp_sample x))"
    and "audio_sent (effects st') = audio_sent (effects st) @ map pcmData (filter transmitted turns)"
    and "websocketRef st' = websocketRef st" and "readyState st' = readyState st"
    by blast+
qed

lemma onaudioprocess_socket_open:
  "onaudioprocess c st = (turns, st') \<Longrightarrow> socket_open st' = socket_open st"
  using onaudioprocess_spec(6,7) [of c st turns st']
  by (simp add: socket_open_def split: option.splits)

lemma feed_spec:
  "feed cs st = (turns, st') \<Longrightarrow> socket_open st \<Longrightarrow> buffered st < FRAME_SIZE \<Longrightarrow>
     concat (map frameSamples turns) @ concat (frameBufferRef st')
        = concat (frameBufferRef st) @ concat cs \<and>
     buffered st' < FRAME_SIZE \<and>
     (\<forall>t\<in>set turns.
        length (frameSamples t) = FRAME_SIZE \<and>
        pcmData t = map pcm_of_sample (frameSamples t) \<and>
        transmitted t = (\<exists>x\<in>set (frameSamples t). above_threshold (clamp_sample x))) \<and>
     audio_sent (effects st') = audio_sent (effects st) @ map pcmData (filter transmitted turns)"
proof (induction cs arbitrary: st turns st')
  case Nil
  then show ?case by simp
next
  case (Cons c cs)
  obtain t1 s1 where a: "onaudioprocess c st = (t1, s1)" by (cases "onaudioprocess c st")
  obtain t2 s2 where b: "feed cs s1 = (t2, s2)" by (cases "feed cs s1")
  from Cons.prems(1) a b have t: "turns = t1 @ t2" and s: "st' = s2" by simp_all
  note sp = onaudioprocess_spec [OF a]
  have o1: "socket_open s1" using onaudioprocess_socket_open [OF a] Cons.prems(2) by simp
  have b1: "buffered s1 < FRAME_SIZE" using sp(2) Cons.prems(2) by simp
  note ih = Cons.IH [OF b o1 b1]
  have "concat (map frameSamples turns) @ concat (frameBufferRef st')
          = concat (map frameSamples t1) @ (concat (map frameSamples t2) @ concat (frameBufferRef s2))"
    using t s by simp
  also have "\<dots> = concat (map frameSamples t1) @ concat (frameBufferRef s1) @ concat cs"
    using ih by simp
  also have "\<dots> = concat (frameBufferRef st) @ concat (c # cs)"
    using sp(1) Cons.prems(2) by simp
  finally have c1: "concat (map frameSamples turns) @ concat (frameBufferRef st')
        = concat (frameBufferRef st) @ concat (c # cs)" .
  have c2: "audio_sent (effects st') = audio_sent (effects st) @ map pcmData (filter transmitted turns)"
    using ih sp(5) t s by simp
  show ?case using c1 c2 ih sp(4) t s by auto
qed

lemma socket_open_open_state: "socket_open open_state"
  by (simp add: socket_open_def open_state_def initial_state_def)

lemma buffered_open_state: "buffered open_state = 0"
  by (simp add: buffered_def open_state_def initial_state_def)

lemma pcm_half: "pcm_of_sample (Num (1 / 2)) = 16383"
  by code_simp

lemma onaudioprocess_quiet_then_loud:
  "map transmitted (fst (onaudioprocess quiet_then_loud open_state)) = [False, True]"
  "audio_sent (effects (snd (onaudioprocess quiet_then_loud open_state))) = [replicate 2048 16383]"
  by (simp_all add: onaudioprocess_def socket_open_def processAudioFrames_def
      open_state_def initial_state_def quiet_then_loud_def FRAME_SIZE_def Let_def
      frame_loop.simps convert_loop_eq pcm_half clamp_sample_Num
      above_threshold_def SILENCE_THRESHOLD_def)

text \<open>
  Claim C2.  Chunks fed to an accumulator whose socket is open and whose buffer holds fewer
  than \<open>FRAME_SIZE\<close> samples: the candidate frames, in the order of the turns of the loop,
  followed by the buffer that is left, are exactly the buffered samples followed by the
  chunks; every frame has \<open>FRAME_SIZE\<close> samples; fewer than \<open>FRAME_SIZE\<close> samples are left;
  of \<open>N\<close> samples, \<open>N div FRAME_SIZE\<close> frames are cut and \<open>N mod FRAME_SIZE\<close> samples stay
  (one frame and 952 samples for one chunk of 3000); and the frames sent on the socket are
  the conversions of the transmitted ones, in that same order.
\<close>

theorem frame_accumulator_lossless:
  assumes "socket_open st" and "buffered st < FRAME_SIZE" and "feed cs st = (turns, st')"
  shows "concat (map frameSamples turns) @ concat (frameBufferRef st')
           = concat (frameBufferRef st) @ concat cs
       \<and> (\<forall>t\<in>set turns. length (frameSamples t) = FRAME_SIZE)
       \<and> buffered st' < FRAME_SIZE
       \<and> length turns = (buffered st + length (concat cs)) div FRAME_SIZE
       \<and> buffered st' = (buffered st + length (concat cs)) mod FRAME_SIZE
       \<and> audio_sent (effects st')
           = audio_sent (effects st) @
             map (\<lambda>t. map pcm_of_sample (frameSamples t)) (filter transmitted turns)"
proof -
  note sp = feed_spec [OF assms(3) assms(1) assms(2)]
  from sp have cc: "concat (map frameSamples turns) @ concat (frameBufferRef st')
           = concat (frameBufferRef st) @ concat cs" by blast
  from sp have len: "\<forall>t\<in>set turns. length (frameSamples t) = FRAME_SIZE" by blast
  from sp have b: "buffered st' < FRAME_SIZE" by blast
  from sp have pcm: "\<forall>t\<in>set turns. pcmData t = map pcm_of_sample (frameSamples t)" by blast
  from sp have snt: "audio_sent (effects st')
           = audio_sent (effects st) @ map pcmData (filter transmitted turns)" by blast
  have "length (concat (map frameSamples turns)) = length turns * FRAME_SIZE"
    using len by (induction turns) simp_all
  with cc have tot: "length turns * FRAME_SIZE + buffered st' = buffered st + length (concat cs)"
    by (metis buffered_concat length_append)
  have d: "length turns = (buffered st + length (concat cs)) div FRAME_SIZE"
    using tot b by (metis div_mult_self3 div_less add.left_neutral less_nat_zero_code mult.commute add.commute)
  have m: "buffered st' = (buffered st + length (concat cs)) mod FRAME_SIZE"
    using tot b by (metis mod_mult_self3 mod_less mult.commute add.commute)
  have "map pcmData (filter transmitted turns)
          = map (\<lambda>t. map pcm_of_sample (frameSamples t)) (filter transmitted turns)"
    using pcm by (induction turns) simp_all
  with snt have s: "audio_sent (effects st')
           = audio_sent (effects st) @
             map (\<lambda>t. map pcm_of_sample (frameSamples t)) (filter transmitted turns)" by simp
  show ?thesis using cc len b d m s by blast
qed

text \<open>One chunk of 3000 samples on an empty buffer: one frame, and 952 samples left.\<close>

theorem frame_accumulator_lossless_witness:
  "socket_open open_state \<and> buffered open_state < FRAME_SIZE \<and>
   length (fst (feed [replicate 3000 (Num (1 / 2))] open_state)) = 1 \<and>
   buffered (snd (feed [replicate 3000 (Num (1 / 2))] open_state)) = 952 \<and>
   concat (map frameSamples (fst (feed [replicate 3000 (Num (1 / 2))] open_state))) @
     concat (frameBufferRef (snd (feed [replicate 3000 (Num (1 / 2))] open_state)))
     = replicate 3000 (Num (1 / 2))"
proof -
  have o: "socket_open open_state" by (rule socket_open_open_state)
  have b: "buffered open_state < FRAME_SIZE"
    by (simp add: buffered_open_state FRAME_SIZE_def)
  have f: "feed [replicate 3000 (Num (1 / 2))] open_state
             = (fst (feed [replicate 3000 (Num (1 / 2))] open_state),
                snd (feed [replicate 3000 (Num (1 / 2))] open_state))" by simp
  have e: "frameBufferRef open_state = []" by (simp add: open_state_def initial_state_def)
  show ?thesis
    using frame_accumulator_lossless [OF o b f] o b
    by (simp add: buffered_open_state e FRAME_SIZE_def)
qed

text \<open>
  Claim C3.  Every candidate frame the callback cuts has \<open>FRAME_SIZE\<close> samples and is
  transmitted if and only if one of its samples has, once clamped, an absolute value
  greater than 0.01; the frames handed to \<open>send\<close> are the conversions of exactly those
  frames, so a silent frame is not sent.
\<close>

theorem silent_frames_not_transmitted:
  assumes "onaudioprocess c st = (turns, st')"
  shows "(\<forall>t\<in>set turns.
           length (frameSamples t) = FRAME_SIZE \<and>
           transmitted t =
             (\<exists>x\<in>set (frameSamples t). js_less (Num (1 / 100)) (Math_abs (clamp_sample x))))
       \<and> audio_sent (effects st')
           = audio_sent (effects st) @
             map (\<lambda>t. map pcm_of_sample (frameSamples t))
               (filter (\<lambda>t. \<exists>x\<in>set (frameSamples t).
                              js_less (Num (1 / 100)) (Math_abs (clamp_sample x))) turns)"
proof -
  note sp = onaudioprocess_spec [OF assms]
  have a: "\<forall>t\<in>set turns.
           length (frameSamples t) = FRAME_SIZE \<and>
           transmitted t =
             (\<exists>x\<in>set (frameSamples t). js_less (Num (1 / 100)) (Math_abs (clamp_sample x)))"
    using sp(4) by (simp add: above_threshold_def SILENCE_THRESHOLD_def)
  then have f: "filter transmitted turns
       = filter (\<lambda>t. \<exists>x\<in>set (frameSamples t).
                              js_less (Num (1 / 100)) (Math_abs (clamp_sample x))) turns"
    by (intro filter_cong) simp_all
  have "map pcmData (filter transmitted turns)
          = map (\<lambda>t. map pcm_of_sample (frameSamples t)) (filter transmitted turns)"
    using sp(4) by (induction turns) simp_all
  with sp(5) f a show ?thesis by simp
qed

text \<open>A silent frame followed by a loud one: only the second is sent.\<close>

theorem silent_frames_not_transmitted_witness:
  "length (fst (onaudioprocess quiet_then_loud open_state)) = 2
   \<and> \<not> transmitted (fst (onaudioprocess quiet_then_loud open_state) ! 0)
   \<and> \<not> (\<exists>x\<in>set (frameSamples (fst (onaudioprocess quiet_then_loud open_state) ! 0)).
            js_less (Num (1 / 100)) (Math_abs (clamp_sample x)))
   \<and> transmitted (fst (onaudioprocess quiet_then_loud open_state) ! 1)
   \<and> (\<exists>x\<in>set (frameSamples (fst (onaudioprocess quiet_then_loud open_state) ! 1)).
            js_less (Num (1 / 100)) (Math_abs (clamp_sample x)))
   \<and> audio_sent (effects (snd (onaudioprocess quiet_then_loud open_state)))
       = [replicate 2048 16383]"
proof -
  let ?turns = "fst (onaudioprocess quiet_then_loud open_state)"
  have "onaudioprocess quiet_then_loud open_state
          = (?turns, snd (onaudioprocess quiet_then_loud open_state))" by simp
  from silent_frames_not_transmitted [OF this]
  have th: "\<forall>t\<in>set ?turns.
              transmitted t =
                (\<exists>x\<in>set (frameSamples t). js_less (Num (1 / 100)) (Math_abs (clamp_sample x)))"
    by blast
  have m: "map transmitted ?turns = [False, True]"
    by (rule onaudioprocess_quiet_then_loud(1))
  then have l: "length ?turns = 2"
    by (metis length_map length_Cons list.size(3) numeral_2_eq_2)
  then have "?turns ! 0 \<in> set ?turns" "?turns ! 1 \<in> set ?turns" by simp_all
  with th have
    t0: "transmitted (?turns ! 0) =
           (\<exists>x\<in>set (frameSamples (?turns ! 0)).
              js_less (Num (1 / 100)) (Math_abs (clamp_sample x)))"
    and t1: "transmitted (?turns ! 1) =
           (\<exists>x\<in>set (frameSamples (?turns ! 1)).
              js_less (Num (1 / 100)) (Math_abs (clamp_sample x)))"
    by blast+
  from m l have "map transmitted ?turns ! 0 = False" "map transmitted ?turns ! 1 = True"
    by simp_all
  with l have v: "\<not> transmitted (?turns ! 0)" "transmitted (?turns ! 1)" by simp_all
  from l t0 t1 v onaudioprocess_quiet_then_loud(2) show ?thesis by blast
qed

lemma frameBufferRef_stopAudioCapture: "frameBufferRef (stopAudioCapture st) = []"
  by (simp add: stopAudioCapture_def run_steps_def stop_steps_def stop_mediaStream_def
      stop_processor_def stop_intervals_def stop_animationFrame_def stop_audioContext_def
      stop_frameBuffer_def stop_mediaRecorder_def stop_recordedAudio_def stop_isCapturing_def
      Let_def)

lemma fail_connection_keeps:
  "frameBufferRef (fail_connection ws st) = frameBufferRef st"
  "transcripts (fail_connection ws st) = transcripts st"
  by (simp_all add: fail_connection_def ws_onclose_def ws_onerror_def onConnectionChange_def
        Let_def)

lemma fail_connections_keep:
  "frameBufferRef (foldl (\<lambda>s ws. fail_connection ws s) st wss) = frameBufferRef st"
  "transcripts (foldl (\<lambda>s ws. fail_connection ws s) st wss) = transcripts st"
  by (induction wss arbitrary: st) (simp_all add: fail_connection_keeps)

lemma dispatch_keeps:
  "frameBufferRef (dispatch st) = frameBufferRef st"
  "transcripts (dispatch st) = transcripts st"
  by (simp_all add: dispatch_def fail_connections_keep)

lemma dispatch_idle: "failing st = [] \<Longrightarrow> dispatch st = st"
  by (simp add: dispatch_def)

lemma buffered_dispatch: "buffered (dispatch st) = buffered st"
  by (simp add: buffered_def dispatch_keeps)

lemma run_append: "run (es @ fs) st = run fs (run es st)"
  by (induction es arbitrary: st) simp_all

lemma failing_dispatch: "failing (dispatch st) = []"
proof -
  have "failing (foldl (\<lambda>s ws. fail_connection ws s) s wss) = failing s" for s wss
    by (induction wss arbitrary: s)
       (simp_all add: fail_connection_def ws_onclose_def ws_onerror_def onConnectionChange_def
          Let_def)
  then show ?thesis by (simp add: dispatch_def)
qed

lemma failing_run: "failing (run es initial_state) = []"
proof -
  have "failing st = [] \<Longrightarrow> failing (run es st) = []" for st
    by (induction es arbitrary: st) (simp_all add: handle_def failing_dispatch)
  then show ?thesis by (simp add: initial_state_def)
qed

lemma frameBufferRef_handle:
  "frameBufferRef (handle e st) = frameBufferRef st \<or> frameBufferRef (handle e st) = []
    \<or> (\<exists>c. e = AudioProcess c)"
  unfolding handle_def dispatch_keeps
  by (cases e)
     (auto simp: frameBufferRef_stopAudioCapture startAudioCapture_setup_def
        startAudioCapture_catch_def connectWebSocket_def ws_onopen_def ws_onmessage_def
        handleAzureWebSocketMessage_def ws_onerror_def ws_onclose_def connection_timeout_def
        disconnectWebSocket_def languagePair_changed_def ping_tick_def socket_close_def
        onConnectionChange_def onTranscriptUpdate_def onSessionStart_def Let_def
        split: option.splits)

lemma buffered_handle: "buffered st < FRAME_SIZE \<Longrightarrow> buffered (handle e st) < FRAME_SIZE"
proof (cases "\<exists>c. e = AudioProcess c")
  case True
  then obtain c where e: "e = AudioProcess c" by blast
  assume b: "buffered st < FRAME_SIZE"
  show ?thesis
    using onaudioprocess_spec(3) [of c st "fst (onaudioprocess c st)" "snd (onaudioprocess c st)"] b e
    by (simp add: handle_def buffered_dispatch)
next
  case False
  assume b: "buffered st < FRAME_SIZE"
  from frameBufferRef_handle [of e st] False
  have "frameBufferRef (handle e st) = frameBufferRef st \<or> frameBufferRef (handle e st) = []"
    by blast
  then show ?thesis using b by (auto simp: buffered_def FRAME_SIZE_def)
qed

lemma buffered_run: "buffered st < FRAME_SIZE \<Longrightarrow> buffered (run es st) < FRAME_SIZE"
  by (induction es arbitrary: st) (simp_all add: buffered_handle)

text \<open>
  Claim C4.  In every state the component reaches from its initial state, whatever the
  calls made on it, the buffer holds fewer than \<open>FRAME_SIZE\<close> samples; and whenever the
  callback accepts a chunk (its socket is open), fewer than \<open>FRAME_SIZE\<close> samples are left
  when it returns, whatever the buffer held before.
\<close>

theorem residual_below_frame_size:
  "buffered (run es initial_state) < FRAME_SIZE \<and>
   (\<forall>c st. socket_open st \<longrightarrow> buffered (snd (onaudioprocess c st)) < FRAME_SIZE)"
proof -
  have "buffered initial_state < FRAME_SIZE"
    by (simp add: buffered_def initial_state_def FRAME_SIZE_def)
  then have a: "buffered (run es initial_state) < FRAME_SIZE" by (rule buffered_run)
  have "buffered (snd (onaudioprocess c st)) < FRAME_SIZE" if "socket_open st" for c st
    using onaudioprocess_spec(2) [of c st "fst (onaudioprocess c st)" "snd (onaudioprocess c st)"] that
    by simp
  with a show ?thesis by blast
qed

theorem residual_below_frame_size_witness:
  "socket_open open_state \<and>
   buffered (snd (onaudioprocess quiet_then_loud open_state)) < FRAME_SIZE \<and>
   buffered (run [ConnectWebSocket None, SocketState 0 OPEN, StartCaptureSetup,
                  AudioProcess quiet_then_loud, StopAudioCapture] initial_state) < FRAME_SIZE"
  using residual_below_frame_size
          [of "[ConnectWebSocket None, SocketState 0 OPEN, StartCaptureSetup,
                AudioProcess quiet_then_loud, StopAudioCapture]"]
        socket_open_open_state
  by blast

section \<open>Properties of the Session Controller\<close>

lemmas handler_defs =
  handle_def dispatch_def fail_connection_def connectWebSocket_def ws_onopen_def ws_onerror_def ws_onclose_def connection_timeout_def
  disconnectWebSocket_def startAudioCapture_catch_def startAudioCapture_setup_def
  languagePair_changed_def ping_tick_def socket_close_def ws_onmessage_def
  onConnectionChange_def onSessionStart_def onTranscriptUpdate_def

lemmas stop_defs =
  stopAudioCapture_def run_steps_def stop_steps_def stop_mediaStream_def
  stop_processor_def stop_intervals_def stop_animationFrame_def stop_audioContext_def
  stop_frameBuffer_def stop_mediaRecorder_def stop_recordedAudio_def stop_isCapturing_def

lemma decimal_1700: "decimal 1700000000000 = ''1700000000000''"
  by (simp add: decimal.simps digit_def)

lemma effects_connected_state: "effects connected_state =
  [ConnectionChange Connecting, ConnectionChange Connected,
   SessionStart ''session_1700000000000_k3x9q2m1z'',
   Send 0 (session_init ''session_1700000000000_k3x9q2m1z'' 16000 1 ''azure_speech'' auto_en ''indian''),
   Resolve 0]"
  by (simp add: connected_state_def initial_state_def handler_defs generateSessionId_def
       decimal_1700 SAMPLE_RATE_def CHANNELS_def Let_def)



lemma capturing_state_fields:
  "connectionState capturing_state = Connected"
  "websocketRef capturing_state = Some 0"
  "readyState capturing_state 0 = OPEN"
  "isCapturing capturing_state"
  "processorConnected capturing_state"
  "processorRef capturing_state"
  "frameBufferRef capturing_state = [[Num (1 / 2), Num (1 / 4)]]"
  "effects capturing_state = effects connected_state"
  by (simp_all add: capturing_state_def connected_state_def initial_state_def handler_defs
        onaudioprocess_def socket_open_def processAudioFrames_def FRAME_SIZE_def Let_def)

lemma stopAudioCapture_frame:
  "connectionState (stopAudioCapture st) = connectionState st"
  "effects (stopAudioCapture st) = effects st"
  "websocketRef (stopAudioCapture st) = websocketRef st"
  "readyState (stopAudioCapture st) = readyState st"
  "transcripts (stopAudioCapture st) = transcripts st"
  "frameBufferRef (stopAudioCapture st) = []"
  "\<not> isCapturing (stopAudioCapture st)"
  "\<not> processorRef (stopAudioCapture st)"
  by (simp_all add: stop_defs Let_def)

lemma stop_prefix_order:
  assumes "processorConnected st \<longrightarrow> processorRef st"
  shows "frameBufferRef (run_steps (take n stop_steps) st) = frameBufferRef st
         \<or> \<not> processorConnected (run_steps (take n stop_steps) st)"
proof -
  have a: "\<not> processorConnected (run_steps (take 2 stop_steps) st)"
    using assms by (auto simp: stop_defs numeral_2_eq_2)
  have keep: "\<not> processorConnected s \<Longrightarrow> \<not> processorConnected (f s)"
    if "f \<in> set (drop 2 stop_steps)" for f s
    using that by (auto simp: stop_defs Let_def split: if_splits)
  have runs: "\<not> processorConnected s \<Longrightarrow> set fs \<subseteq> set (drop 2 stop_steps)
      \<Longrightarrow> \<not> processorConnected (run_steps fs s)" for fs s
  proof (induction fs arbitrary: s)
    case Nil then show ?case by (simp add: run_steps_def)
  next
    case (Cons f fs)
    then have "\<not> processorConnected (f s)" using keep by simp
    with Cons show ?case by (simp add: run_steps_def)
  qed
  show ?thesis
  proof (cases "n < 2")
    case True
    then have "n = 0 \<or> n = 1" by arith
    then show ?thesis
      by (auto simp: stop_defs split: if_splits)
  next
    case False
    then have "take n stop_steps = take 2 stop_steps @ take (n - 2) (drop 2 stop_steps)"
      by (metis le_add_diff_inverse not_less take_add)
    then have "run_steps (take n stop_steps) st
       = run_steps (take (n - 2) (drop 2 stop_steps)) (run_steps (take 2 stop_steps) st)"
      by (simp add: run_steps_def)
    moreover have "set (take (n - 2) (drop 2 stop_steps)) \<subseteq> set (drop 2 stop_steps)"
      by (rule set_take_subset)
    ultimately show ?thesis using runs [OF a] by simp
  qed
qed

text \<open>
  Claim C6 (as amended).  \<open>stopAudioCapture\<close> disconnects the script processor before it
  clears the frame buffer: after no prefix of its statements is the buffer changed while
  the callback can still fire.  It leaves the buffer empty, that is, it discards the
  residual.  Closing the channel with code 1000 and reporting \<open>disconnected\<close>, after the
  close call, is what \<open>disconnectWebSocket\<close> does.
\<close>

theorem stop_capture_detaches_then_clears:
  assumes "processorConnected st \<longrightarrow> processorRef st"
  shows "(\<forall>n. frameBufferRef (run_steps (take n stop_steps) st) = frameBufferRef st
              \<or> \<not> processorConnected (run_steps (take n stop_steps) st))
       \<and> frameBufferRef (stopAudioCapture st) = []
       \<and> \<not> processorConnected (stopAudioCapture st)
       \<and> \<not> isCapturing (stopAudioCapture st)
       \<and> (\<forall>ws. websocketRef st = Some ws \<longrightarrow>
              effects (disconnectWebSocket st)
                = effects st @
                  [Close ws (Some (1000, ''User disconnected'')), ConnectionChange Disconnected])
       \<and> connectionState (disconnectWebSocket st) = Disconnected
       \<and> websocketRef (disconnectWebSocket st) = None"
proof -
  have a: "\<forall>n. frameBufferRef (run_steps (take n stop_steps) st) = frameBufferRef st
              \<or> \<not> processorConnected (run_steps (take n stop_steps) st)"
    using stop_prefix_order [OF assms] by blast
  have b: "\<not> processorConnected (stopAudioCapture st)"
    using assms by (auto simp: stop_defs Let_def)
  have c: "\<forall>ws. websocketRef st = Some ws \<longrightarrow>
              effects (disconnectWebSocket st)
                = effects st @
                  [Close ws (Some (1000, ''User disconnected'')), ConnectionChange Disconnected]"
    by (simp add: disconnectWebSocket_def socket_close_def onConnectionChange_def Let_def)
  have d: "connectionState (disconnectWebSocket st) = Disconnected"
    by (simp add: disconnectWebSocket_def onConnectionChange_def Let_def)
  have e: "websocketRef (disconnectWebSocket st) = None"
    by (simp add: disconnectWebSocket_def socket_close_def onConnectionChange_def Let_def
          split: option.splits)
  show ?thesis using a b c d e by (simp add: stopAudioCapture_frame)
qed

theorem stop_capture_detaches_then_clears_witness:
  "processorConnected capturing_state \<and> processorRef capturing_state
   \<and> frameBufferRef capturing_state = [[Num (1 / 2), Num (1 / 4)]]
   \<and> frameBufferRef (stopAudioCapture capturing_state) = []
   \<and> \<not> processorConnected (stopAudioCapture capturing_state)
   \<and> effects (disconnectWebSocket capturing_state)
       = effects capturing_state @
         [Close 0 (Some (1000, ''User disconnected'')), ConnectionChange Disconnected]
   \<and> connectionState (disconnectWebSocket capturing_state) = Disconnected"
proof -
  have h: "processorConnected capturing_state \<longrightarrow> processorRef capturing_state"
    by (simp add: capturing_state_fields)
  from stop_capture_detaches_then_clears [OF h] show ?thesis
    by (simp add: capturing_state_fields)
qed

text \<open>
  Claim C6 as stated has stopping capture close the channel and leave the state
  \<open>disconnected\<close>.  \<open>stopAudioCapture\<close> on a connected, capturing component makes no call
  on the socket and leaves the state \<open>connected\<close>.
\<close>

theorem stop_leaves_channel_open_counterexample:
  "connectionState capturing_state = Connected \<and>
   connectionState (stopAudioCapture capturing_state) = Connected \<and>
   readyState (stopAudioCapture capturing_state) 0 = OPEN \<and>
   websocketRef (stopAudioCapture capturing_state) = Some 0 \<and>
   effects (stopAudioCapture capturing_state) = effects capturing_state"
  by (simp add: stopAudioCapture_frame capturing_state_fields)

lemma timeout_on_pending:
  assumes "readyState st ws = CONNECTING" and "websocketRef st \<noteq> Some ws"
    and "failing st = []"
  shows "connectionState (handle (ConnectionTimeout ws) st) = Error"
    and "readyState (handle (ConnectionTimeout ws) st) ws = CLOSED"
    and "effects (handle (ConnectionTimeout ws) st)
           = effects st @
             [Close ws None, Reject ''WebSocket connection timeout'',
              ConnectionChange Error, Reject ''WebSocket connection failed'']"
  using assms
  by (simp_all add: handle_def dispatch_def fail_connection_def connection_timeout_def
        socket_close_def ws_onerror_def ws_onclose_def onConnectionChange_def Let_def)

lemma timeout_on_open:
  assumes "readyState st ws = OPEN" and "failing st = []"
  shows "handle (ConnectionTimeout ws) st = st"
  using assms by (simp add: handle_def connection_timeout_def dispatch_idle)

text \<open>
  Claim C7.  In any state the component reaches, when the timer of a connection attempt
  fires and the socket of the attempt is still connecting (it is then not the socket of
  \<open>websocketRef\<close>, which holds a socket only from its open event on), the pending channel
  is closed and the attempt rejected by the timer's callback, and the failure the platform
  reports for the closed socket moves the state to \<open>error\<close>.  When the socket is open, the
  timer changes nothing.
\<close>

theorem timeout_aborts_pending_channel:
  "(readyState (run es initial_state) ws = CONNECTING \<and>
    websocketRef (run es initial_state) \<noteq> Some ws \<longrightarrow>
      connectionState (run (es @ [ConnectionTimeout ws]) initial_state) = Error \<and>
      readyState (run (es @ [ConnectionTimeout ws]) initial_state) ws = CLOSED \<and>
      effects (run (es @ [ConnectionTimeout ws]) initial_state)
        = effects (run es initial_state) @
          [Close ws None, Reject ''WebSocket connection timeout'',
           ConnectionChange Error, Reject ''WebSocket connection failed''])
   \<and> (readyState (run es initial_state) ws = OPEN \<longrightarrow>
        run (es @ [ConnectionTimeout ws]) initial_state = run es initial_state)"
proof -
  let ?st = "run es initial_state"
  have r: "run (es @ [ConnectionTimeout ws]) initial_state = handle (ConnectionTimeout ws) ?st"
    by (simp add: run_append)
  have f: "failing ?st = []" by (rule failing_run)
  have a: "connectionState (handle (ConnectionTimeout ws) ?st) = Error \<and>
      readyState (handle (ConnectionTimeout ws) ?st) ws = CLOSED \<and>
      effects (handle (ConnectionTimeout ws) ?st)
        = effects ?st @
          [Close ws None, Reject ''WebSocket connection timeout'',
           ConnectionChange Error, Reject ''WebSocket connection failed'']"
    if "readyState ?st ws = CONNECTING" "websocketRef ?st \<noteq> Some ws"
    using timeout_on_pending [OF that f] by blast
  have b: "handle (ConnectionTimeout ws) ?st = ?st" if "readyState ?st ws = OPEN"
    using timeout_on_open [OF that f] .
  show ?thesis unfolding r using a b by blast
qed

text \<open>A connect request whose socket never opens, and the time-out of that socket.\<close>

theorem timeout_aborts_pending_channel_witness:
  "readyState (run [ConnectWebSocket None] initial_state) 0 = CONNECTING
   \<and> websocketRef (run [ConnectWebSocket None] initial_state) \<noteq> Some 0
   \<and> connectionState (run [ConnectWebSocket None, ConnectionTimeout 0] initial_state) = Error
   \<and> readyState (run [ConnectWebSocket None, ConnectionTimeout 0] initial_state) 0 = CLOSED
   \<and> effects (run [ConnectWebSocket None, ConnectionTimeout 0] initial_state)
       = [ConnectionChange Connecting, Close 0 None, Reject ''WebSocket connection timeout'',
          ConnectionChange Error, Reject ''WebSocket connection failed'']"
proof -
  have h: "readyState (run [ConnectWebSocket None] initial_state) 0 = CONNECTING"
    "websocketRef (run [ConnectWebSocket None] initial_state) \<noteq> Some 0"
    "effects (run [ConnectWebSocket None] initial_state) = [ConnectionChange Connecting]"
    by (simp_all add: initial_state_def handler_defs Let_def)
  from timeout_aborts_pending_channel [of "[ConnectWebSocket None]" 0] h
  show ?thesis by simp
qed

lemma digit_inj: "a < 10 \<Longrightarrow> b < 10 \<Longrightarrow> digit a = digit b \<Longrightarrow> a = b"
proof -
  assume a: "a < 10" and b: "b < 10" and e: "digit a = digit b"
  have d: "distinct ''0123456789''" by simp
  have l: "length ''0123456789'' = 10" by simp
  from nth_eq_iff_index_eq [OF d, of a b] a b e l show "a = b"
    by (simp add: digit_def)
qed

lemma digit_not_underscore: "d < 10 \<Longrightarrow> digit d \<noteq> CHR ''_''"
proof -
  assume "d < 10"
  then have "digit d \<in> set ''0123456789''"
    unfolding digit_def by (intro nth_mem) simp
  then show ?thesis by auto
qed

lemma decimal_not_Nil: "decimal n \<noteq> []"
  by (subst decimal.simps) simp

lemma decimal_no_underscore: "CHR ''_'' \<notin> set (decimal n)"
proof (induction n rule: decimal.induct)
  case (1 n)
  show ?case
  proof (cases "n < 10")
    case True
    then show ?thesis
      using digit_not_underscore [of n] by (subst decimal.simps) auto
  next
    case False
    then show ?thesis
      using "1.IH" digit_not_underscore [of "n mod 10"]
      by (subst decimal.simps) auto
  qed
qed

lemma decimal_inj: "decimal n = decimal m \<Longrightarrow> n = m"
proof (induction n arbitrary: m rule: decimal.induct)
  case (1 n)
  show ?case
  proof (cases "n < 10")
    case True
    then have dn: "decimal n = [digit n]" by (subst decimal.simps) simp
    have "m < 10"
    proof (rule ccontr)
      assume "\<not> m < 10"
      then have "decimal m = decimal (m div 10) @ [digit (m mod 10)]"
        by (subst decimal.simps) simp
      with dn "1.prems" decimal_not_Nil [of "m div 10"] show False by simp
    qed
    then have "decimal m = [digit m]" by (subst decimal.simps) simp
    with dn "1.prems" True \<open>m < 10\<close> show ?thesis by (simp add: digit_inj)
  next
    case False
    then have dn: "decimal n = decimal (n div 10) @ [digit (n mod 10)]"
      by (subst decimal.simps) simp
    have m10: "\<not> m < 10"
    proof
      assume "m < 10"
      then have "decimal m = [digit m]" by (subst decimal.simps) simp
      with dn "1.prems" decimal_not_Nil [of "n div 10"] show False by simp
    qed
    then have dm: "decimal m = decimal (m div 10) @ [digit (m mod 10)]"
      by (subst decimal.simps) simp
    from dn dm "1.prems" have e1: "decimal (n div 10) = decimal (m div 10)"
      and e2: "digit (n mod 10) = digit (m mod 10)" by simp_all
    from "1.IH" [OF False e1] have q: "n div 10 = m div 10" .
    from e2 have r: "n mod 10 = m mod 10" by (intro digit_inj) simp_all
    from q r show ?thesis by (metis div_mult_mod_eq)
  qed
qed

lemma split_at_first:
  "c \<notin> set xs \<Longrightarrow> c \<notin> set xs' \<Longrightarrow> xs @ c # ys = xs' @ c # ys' \<Longrightarrow> xs = xs' \<and> ys = ys'"
proof (induction xs arbitrary: xs')
  case Nil
  then show ?case by (cases xs') auto
next
  case (Cons x xs)
  then show ?case by (cases xs') auto
qed

lemma generateSessionId_inj:
  "generateSessionId now rnd = generateSessionId now' rnd' \<longleftrightarrow> now = now' \<and> rnd = rnd'"
proof
  assume "generateSessionId now rnd = generateSessionId now' rnd'"
  then have "decimal now @ CHR ''_'' # rnd = decimal now' @ CHR ''_'' # rnd'"
    by (simp add: generateSessionId_def)
  from split_at_first [OF decimal_no_underscore decimal_no_underscore this]
  show "now = now' \<and> rnd = rnd'" by (auto dest: decimal_inj)
qed simp

lemma first_session_fields:
  "websocketRef first_session = Some 0"
  "sessionIdRef first_session = generateSessionId 1700000000000 ''k3x9q2m1z''"
  "map original (transcripts first_session) = [Some ''hello'']"
  "connectionState first_session = Connected"
  by (simp_all add: first_session_def initial_state_def handler_defs
        handleAzureWebSocketMessage_def final_hello_def Let_def)

lemma failing_first_session: "failing first_session = []"
  unfolding first_session_def by (rule failing_run)

lemma closed_session_fields:
  "\<not> socket_open closed_session"
  "connectionState closed_session = Disconnected"
  "sessionIdRef closed_session = generateSessionId 1700000000000 ''k3x9q2m1z''"
  "map original (transcripts closed_session) = [Some ''hello'']"
  using first_session_fields failing_first_session
  by (simp_all add: closed_session_def socket_open_def handler_defs)

lemma handle_WsClose:
  "failing st = [] \<Longrightarrow> handle (WsClose ws) st = ws_onclose ws st"
  by (simp add: handle_def dispatch_idle ws_onclose_def onConnectionChange_def)

lemma handle_WsOpen:
  "failing st = [] \<Longrightarrow>
     handle (WsOpen ws now rnd lp sendError) st = ws_onopen ws now rnd lp sendError st"
  by (cases sendError)
     (simp_all add: handle_def dispatch_idle ws_onopen_def onConnectionChange_def
        onSessionStart_def Let_def)

lemma ws_onopen_fields:
  "sessionIdRef (ws_onopen ws now rnd lp sendError st) = generateSessionId now rnd"
  "sessionId (ws_onopen ws now rnd lp sendError st) = generateSessionId now rnd"
  "transcripts (ws_onopen ws now rnd lp sendError st) = []"
  "connectionState (ws_onopen ws now rnd lp sendError st) = Connected"
  by (cases sendError; simp add: ws_onopen_def onConnectionChange_def onSessionStart_def Let_def)+

lemma resumed_session_fields:
  "connectionState resumed_session = Connected"
  "websocketRef resumed_session = Some 1"
  "readyState resumed_session 1 = OPEN"
  "\<not> isCapturing resumed_session"
  "processorConnected resumed_session"
  "mediaStreamRef resumed_session"
  "frameBufferRef resumed_session = []"
  "audio_sent (effects resumed_session) = []"
  by (simp_all add: resumed_session_def initial_state_def handler_defs Let_def)

lemma onaudioprocess_resumed_session:
  "audio_sent (effects (snd (onaudioprocess quiet_then_loud resumed_session)))
     = [replicate 2048 16383]"
  using resumed_session_fields
  by (simp add: onaudioprocess_def socket_open_def processAudioFrames_def
      quiet_then_loud_def FRAME_SIZE_def Let_def audio_sent_append
      frame_loop.simps convert_loop_eq pcm_half clamp_sample_Num
      above_threshold_def SILENCE_THRESHOLD_def)

text \<open>
  Claim C8 (as amended).  In any state the component reaches, when the socket of
  \<open>websocketRef\<close> closes, the state becomes \<open>disconnected\<close> and the transcript log and the
  session identifier are as they were.  When a socket opens afterwards, the state becomes
  \<open>connected\<close>, the session identifier is made of the clock reading and the random suffix
  of that moment, so it is the previous identifier exactly when both repeat, and the
  transcript log of the new session is empty.
\<close>

theorem remote_close_then_reconnect:
  "(websocketRef (run es initial_state) = Some ws \<longrightarrow>
      connectionState (run (es @ [WsClose ws]) initial_state) = Disconnected \<and>
      transcripts (run (es @ [WsClose ws]) initial_state) = transcripts (run es initial_state) \<and>
      sessionIdRef (run (es @ [WsClose ws]) initial_state) = sessionIdRef (run es initial_state))
   \<and> connectionState (run (es @ [WsOpen ws' now rnd lp sendError]) initial_state) = Connected
   \<and> sessionIdRef (run (es @ [WsOpen ws' now rnd lp sendError]) initial_state)
       = generateSessionId now rnd
   \<and> sessionId (run (es @ [WsOpen ws' now rnd lp sendError]) initial_state)
       = generateSessionId now rnd
   \<and> (sessionIdRef (run es initial_state) = generateSessionId now0 rnd0 \<longrightarrow>
        (sessionIdRef (run (es @ [WsOpen ws' now rnd lp sendError]) initial_state)
           = sessionIdRef (run es initial_state))
        = (now = now0 \<and> rnd = rnd0))
   \<and> transcripts (run (es @ [WsOpen ws' now rnd lp sendError]) initial_state) = []"
proof -
  let ?st = "run es initial_state"
  have f: "failing ?st = []" by (rule failing_run)
  have c: "run (es @ [WsClose ws]) initial_state = ws_onclose ws ?st"
    by (simp add: run_append handle_WsClose [OF f])
  have o: "run (es @ [WsOpen ws' now rnd lp sendError]) initial_state
             = ws_onopen ws' now rnd lp sendError ?st"
    by (simp add: run_append handle_WsOpen [OF f])
  have a: "websocketRef ?st = Some ws \<longrightarrow>
      connectionState (ws_onclose ws ?st) = Disconnected \<and>
      transcripts (ws_onclose ws ?st) = transcripts ?st \<and>
      sessionIdRef (ws_onclose ws ?st) = sessionIdRef ?st"
    by (simp add: ws_onclose_def onConnectionChange_def)
  have d: "sessionIdRef ?st = generateSessionId now0 rnd0 \<longrightarrow>
        (sessionIdRef (ws_onopen ws' now rnd lp sendError ?st) = sessionIdRef ?st)
        = (now = now0 \<and> rnd = rnd0)"
    by (simp add: ws_onopen_fields generateSessionId_inj)
  show ?thesis unfolding c o using a d by (simp add: ws_onopen_fields)
qed

text \<open>
  The first session, whose socket the remote side closes; and the reconnect a minute later.
\<close>

theorem remote_close_then_reconnect_witness:
  "websocketRef
     (run [ConnectWebSocket None, SocketState 0 OPEN,
           WsOpen 0 1700000000000 ''k3x9q2m1z'' auto_en None,
           WsMessage 1700000001000 ''a1b2c3d4e'' (Some final_hello),
           SocketState 0 CLOSED] initial_state) = Some 0
   \<and> connectionState
       (run [ConnectWebSocket None, SocketState 0 OPEN,
             WsOpen 0 1700000000000 ''k3x9q2m1z'' auto_en None,
             WsMessage 1700000001000 ''a1b2c3d4e'' (Some final_hello),
             SocketState 0 CLOSED, WsClose 0] initial_state) = Disconnected
   \<and> map original
       (transcripts
         (run [ConnectWebSocket None, SocketState 0 OPEN,
               WsOpen 0 1700000000000 ''k3x9q2m1z'' auto_en None,
               WsMessage 1700000001000 ''a1b2c3d4e'' (Some final_hello),
               SocketState 0 CLOSED, WsClose 0] initial_state)) = [Some ''hello'']
   \<and> sessionIdRef
       (run [ConnectWebSocket None, SocketState 0 OPEN,
             WsOpen 0 1700000000000 ''k3x9q2m1z'' auto_en None,
             WsMessage 1700000001000 ''a1b2c3d4e'' (Some final_hello),
             SocketState 0 CLOSED, WsClose 0] initial_state)
       = generateSessionId 1700000000000 ''k3x9q2m1z''
   \<and> sessionIdRef
       (run [ConnectWebSocket None, SocketState 0 OPEN,
             WsOpen 0 1700000000000 ''k3x9q2m1z'' auto_en None,
             WsMessage 1700000001000 ''a1b2c3d4e'' (Some final_hello),
             SocketState 0 CLOSED, WsClose 0, ConnectWebSocket None, SocketState 1 OPEN,
             WsOpen 1 1700000060000 ''z9y8x7w6v'' auto_en None] initial_state)
       \<noteq> generateSessionId 1700000000000 ''k3x9q2m1z''
   \<and> transcripts
       (run [ConnectWebSocket None, SocketState 0 OPEN,
             WsOpen 0 1700000000000 ''k3x9q2m1z'' auto_en None,
             WsMessage 1700000001000 ''a1b2c3d4e'' (Some final_hello),
             SocketState 0 CLOSED, WsClose 0, ConnectWebSocket None, SocketState 1 OPEN,
             WsOpen 1 1700000060000 ''z9y8x7w6v'' auto_en None] initial_state) = []"
proof -
  let ?es = "[ConnectWebSocket None, SocketState 0 OPEN,
           WsOpen 0 1700000000000 ''k3x9q2m1z'' auto_en None,
           WsMessage 1700000001000 ''a1b2c3d4e'' (Some final_hello),
           SocketState 0 CLOSED]"
  let ?es' = "?es @ [WsClose 0, ConnectWebSocket None, SocketState 1 OPEN]"
  have h: "websocketRef (run ?es initial_state) = Some 0"
    "map original (transcripts (run ?es initial_state)) = [Some ''hello'']"
    "sessionIdRef (run ?es initial_state) = generateSessionId 1700000000000 ''k3x9q2m1z''"
    "sessionIdRef (run ?es' initial_state) = generateSessionId 1700000000000 ''k3x9q2m1z''"
    by (simp_all add: initial_state_def handler_defs handleAzureWebSocketMessage_def
          final_hello_def Let_def)
  note a = remote_close_then_reconnect
             [of ?es 0 1 1700000060000 "''z9y8x7w6v''" auto_en None
                 1700000000000 "''k3x9q2m1z''"]
  note b = remote_close_then_reconnect
             [of ?es' 0 1 1700000060000 "''z9y8x7w6v''" auto_en None
                 1700000000000 "''k3x9q2m1z''"]
  from a h have 1: "connectionState (run (?es @ [WsClose 0]) initial_state) = Disconnected"
    and 2: "map original (transcripts (run (?es @ [WsClose 0]) initial_state)) = [Some ''hello'']"
    and 3: "sessionIdRef (run (?es @ [WsClose 0]) initial_state)
              = generateSessionId 1700000000000 ''k3x9q2m1z''"
    by (simp_all del: run.simps)
  from b h(4) have 4: "sessionIdRef
         (run (?es' @ [WsOpen 1 1700000060000 ''z9y8x7w6v'' auto_en None]) initial_state)
       \<noteq> generateSessionId 1700000000000 ''k3x9q2m1z''"
    and 5: "transcripts
         (run (?es' @ [WsOpen 1 1700000060000 ''z9y8x7w6v'' auto_en None]) initial_state) = []"
    by (simp_all add: generateSessionId_inj del: run.simps)
  from h(1) 1 2 3 4 5 show ?thesis by (simp del: run.simps)
qed

text \<open>
  Claim C8 as stated has capture halt, the identifier of a reconnect differ from the
  previous one, and the transcript log survive the reconnect.  A session receives a final
  transcript and the remote side closes: the reconnect opens with an empty log; and a
  reconnect that reads the clock value and draws the suffix of the first session has the
  identifier of the first session.  In a session where capture was started before the
  remote side closed, the processor and the microphone stream are still attached after the
  reconnect, the capture flag is off, and the next chunk of audio is sent on the new
  socket.
\<close>

theorem remote_close_reconnect_counterexample:
  "map original (transcripts first_session) = [Some ''hello'']
   \<and> connectionState (run [SocketState 0 CLOSED, WsClose 0] first_session) = Disconnected
   \<and> map original (transcripts (run [SocketState 0 CLOSED, WsClose 0] first_session))
       = [Some ''hello'']
   \<and> transcripts
       (run [SocketState 0 CLOSED, WsClose 0, ConnectWebSocket None, SocketState 1 OPEN,
             WsOpen 1 1700000060000 ''z9y8x7w6v'' auto_en None] first_session) = []
   \<and> sessionIdRef
       (run [SocketState 0 CLOSED, WsClose 0, ConnectWebSocket None, SocketState 1 OPEN,
             WsOpen 1 1700000000000 ''k3x9q2m1z'' auto_en None] first_session)
       = sessionIdRef first_session
   \<and> connectionState resumed_session = Connected
   \<and> \<not> isCapturing resumed_session
   \<and> processorConnected resumed_session
   \<and> mediaStreamRef resumed_session
   \<and> audio_sent (effects resumed_session) = []
   \<and> audio_sent (effects (run [AudioProcess quiet_then_loud] resumed_session))
       = [replicate 2048 16383]"
proof -
  have f: "failing resumed_session = []"
    unfolding resumed_session_def by (rule failing_run)
  have "failing (snd (onaudioprocess quiet_then_loud resumed_session)) = []"
    using f resumed_session_fields
    by (simp add: onaudioprocess_def socket_open_def processAudioFrames_def Let_def
          split: prod.splits)
  then have a: "audio_sent (effects (run [AudioProcess quiet_then_loud] resumed_session))
       = [replicate 2048 16383]"
    using resumed_session_fields(5) onaudioprocess_resumed_session
    by (simp add: handle_def dispatch_idle)
  have b: "map original (transcripts first_session) = [Some ''hello'']
   \<and> connectionState (run [SocketState 0 CLOSED, WsClose 0] first_session) = Disconnected
   \<and> map original (transcripts (run [SocketState 0 CLOSED, WsClose 0] first_session))
       = [Some ''hello'']
   \<and> transcripts
       (run [SocketState 0 CLOSED, WsClose 0, ConnectWebSocket None, SocketState 1 OPEN,
             WsOpen 1 1700000060000 ''z9y8x7w6v'' auto_en None] first_session) = []
   \<and> sessionIdRef
       (run [SocketState 0 CLOSED, WsClose 0, ConnectWebSocket None, SocketState 1 OPEN,
             WsOpen 1 1700000000000 ''k3x9q2m1z'' auto_en None] first_session)
       = sessionIdRef first_session"
    using first_session_fields failing_first_session
    by (simp add: handler_defs Let_def)
  from a b resumed_session_fields show ?thesis by simp
qed

section \<open>Properties of the Transcript Assembler\<close>

lemma split_space_hello: "split_space ''hello'' = [''hello'']"
  by simp

lemma limit_words_hello: "limit_words ''hello'' = ''hello''"
  by (simp add: limit_words_def)

lemma limit_words_hola: "limit_words ''hola'' = ''hola''"
  by (simp add: limit_words_def)

lemma last_filter_in_set: "filter P xs \<noteq> [] \<Longrightarrow> last (filter P xs) \<in> set xs"
  by (metis filter_is_subset last_in_set subsetD)

lemma limit_words_dos: "limit_words ''dos'' = ''dos''"
  by (simp add: limit_words_def)

lemma distinct_translation_iff:
  "distinct_translation e \<longleftrightarrow>
     \<not> (translated e = None \<or> translated e = Some [] \<or> translated e = original e)"
  by (cases "translated e") (auto simp: distinct_translation_def truthy_def)

lemma uno_dos_log_entries:
  "map type_t uno_dos_log = [partial, final, final]"
  "map original uno_dos_log = [Some ''hello'', Some ''one'', Some ''two'']"
  "map translated uno_dos_log = [Some ''hello'', Some ''uno'', Some ''dos'']"
  "filter (\<lambda>e. type_t e = partial) uno_dos_log = [uno_dos_log ! 0]"
  "filter (\<lambda>e. type_t e = final) uno_dos_log = [uno_dos_log ! 1, uno_dos_log ! 2]"
  "original (uno_dos_log ! 0) = Some ''hello''"
  "translated (uno_dos_log ! 0) = Some ''hello''"
  "original (uno_dos_log ! 2) = Some ''two''"
  "translated (uno_dos_log ! 2) = Some ''dos''"
  by (simp_all add: uno_dos_log_def initial_state_def handler_defs
        handleAzureWebSocketMessage_def partial_hello_def final_uno_def final_dos_def
        js_or_def truthy_def Let_def)

text \<open>
  Claim C9 (as amended).  The translated-text projection is empty when there is no
  transcript or no current partial text.  Otherwise it is the word-limited translation of
  the latest partial entry when that translation is present, not empty and different from
  the entry's original; else the word-limited translation of the latest final entry when
  that one is present, not empty and different from its original; else it is empty.  So
  what it returns is never an original that stands in for a translation, and it is empty
  whenever every entry's translation equals its original.  The fall-back to the original
  is in the entry the handler stores for a final event: its translated text is the
  message's translation when that is present and not empty, the original otherwise.
\<close>

theorem translated_projection:
  "getCurrentTranslatedPartial currentPartial [] = []
   \<and> getCurrentTranslatedPartial [] ts = []
   \<and> (getCurrentTranslatedPartial currentPartial ts \<noteq> [] \<longrightarrow>
        (\<exists>e\<in>set ts. \<exists>t. translated e = Some t \<and> t \<noteq> [] \<and> translated e \<noteq> original e \<and>
            getCurrentTranslatedPartial currentPartial ts = limit_words t))
   \<and> ((\<forall>e\<in>set ts. translated e = original e) \<longrightarrow>
        getCurrentTranslatedPartial currentPartial ts = [])
   \<and> (\<forall>t. currentPartial \<noteq> [] \<and> filter (\<lambda>e. type_t e = partial) ts \<noteq> [] \<and>
          translated (last (filter (\<lambda>e. type_t e = partial) ts)) = Some t \<and> t \<noteq> [] \<and>
          translated (last (filter (\<lambda>e. type_t e = partial) ts))
            \<noteq> original (last (filter (\<lambda>e. type_t e = partial) ts)) \<longrightarrow>
          getCurrentTranslatedPartial currentPartial ts = limit_words t)
   \<and> (\<forall>t. currentPartial \<noteq> [] \<and>
          (filter (\<lambda>e. type_t e = partial) ts = [] \<or>
           translated (last (filter (\<lambda>e. type_t e = partial) ts)) = None \<or>
           translated (last (filter (\<lambda>e. type_t e = partial) ts)) = Some [] \<or>
           translated (last (filter (\<lambda>e. type_t e = partial) ts))
             = original (last (filter (\<lambda>e. type_t e = partial) ts))) \<and>
          filter (\<lambda>e. type_t e = final) ts \<noteq> [] \<and>
          translated (last (filter (\<lambda>e. type_t e = final) ts)) = Some t \<and> t \<noteq> [] \<and>
          translated (last (filter (\<lambda>e. type_t e = final) ts))
            \<noteq> original (last (filter (\<lambda>e. type_t e = final) ts)) \<longrightarrow>
          getCurrentTranslatedPartial currentPartial ts = limit_words t)
   \<and> ((filter (\<lambda>e. type_t e = partial) ts = [] \<or>
        translated (last (filter (\<lambda>e. type_t e = partial) ts)) = None \<or>
        translated (last (filter (\<lambda>e. type_t e = partial) ts)) = Some [] \<or>
        translated (last (filter (\<lambda>e. type_t e = partial) ts))
          = original (last (filter (\<lambda>e. type_t e = partial) ts))) \<and>
       (filter (\<lambda>e. type_t e = final) ts = [] \<or>
        translated (last (filter (\<lambda>e. type_t e = final) ts)) = None \<or>
        translated (last (filter (\<lambda>e. type_t e = final) ts)) = Some [] \<or>
        translated (last (filter (\<lambda>e. type_t e = final) ts))
          = original (last (filter (\<lambda>e. type_t e = final) ts))) \<longrightarrow>
        getCurrentTranslatedPartial currentPartial ts = [])
   \<and> (d_type data = ''final_transcript'' \<longrightarrow>
        (\<exists>e. transcripts (handleAzureWebSocketMessage now rnd data st) = transcripts st @ [e] \<and>
             original e = d_original data \<and>
             translated e = (if truthy (d_translated data) then d_translated data
                             else d_original data)))"
proof -
  let ?r = "getCurrentTranslatedPartial currentPartial ts"
  let ?ps = "filter (\<lambda>t. type_t t = partial) ts"
  let ?fs = "filter (\<lambda>t. type_t t = final) ts"
  let ?np = "?ps = [] \<or> translated (last ?ps) = None \<or> translated (last ?ps) = Some [] \<or>
             translated (last ?ps) = original (last ?ps)"
  let ?nf = "?fs = [] \<or> translated (last ?fs) = None \<or> translated (last ?fs) = Some [] \<or>
             translated (last ?fs) = original (last ?fs)"
  have a: "getCurrentTranslatedPartial currentPartial [] = []"
    by (simp add: getCurrentTranslatedPartial_def)
  have b: "getCurrentTranslatedPartial [] ts = []"
    by (simp add: getCurrentTranslatedPartial_def)
  have shown: "\<exists>t. translated e = Some t \<and> t \<noteq> [] \<and> translated e \<noteq> original e \<and>
                 limit_translated e = limit_words t"
    if "distinct_translation e" for e
    using that
    by (cases "translated e") (auto simp: distinct_translation_def truthy_def limit_translated_def)
  have c: "?r \<noteq> [] \<longrightarrow>
        (\<exists>e\<in>set ts. \<exists>t. translated e = Some t \<and> t \<noteq> [] \<and> translated e \<noteq> original e \<and>
            ?r = limit_words t)"
  proof
    assume nz: "?r \<noteq> []"
    consider (p) "?ps \<noteq> []" "distinct_translation (last ?ps)" "?r = limit_translated (last ?ps)"
      | (f) "?fs \<noteq> []" "distinct_translation (last ?fs)" "?r = limit_translated (last ?fs)"
      using nz by (auto simp: getCurrentTranslatedPartial_def Let_def split: if_splits)
    then show "\<exists>e\<in>set ts. \<exists>t. translated e = Some t \<and> t \<noteq> [] \<and> translated e \<noteq> original e \<and>
            ?r = limit_words t"
    proof cases
      case p
      from shown [OF p(2)] p(3) last_filter_in_set [OF p(1)] show ?thesis by auto
    next
      case f
      from shown [OF f(2)] f(3) last_filter_in_set [OF f(1)] show ?thesis by auto
    qed
  qed
  have d: "(\<forall>e\<in>set ts. translated e = original e) \<longrightarrow> ?r = []"
    using c by blast
  have f': "?r = limit_words t"
    if "currentPartial \<noteq> []" "?ps \<noteq> []" "translated (last ?ps) = Some t" "t \<noteq> []"
       "translated (last ?ps) \<noteq> original (last ?ps)" for t
  proof -
    have "distinct_translation (last ?ps)"
      using that(3,4,5) by (simp add: distinct_translation_def truthy_def)
    moreover have "limit_translated (last ?ps) = limit_words t"
      using that(3) by (simp add: limit_translated_def)
    ultimately show ?thesis
      using that(1,2) by (simp add: getCurrentTranslatedPartial_def Let_def)
  qed
  have f: "\<forall>t. currentPartial \<noteq> [] \<and> ?ps \<noteq> [] \<and> translated (last ?ps) = Some t \<and> t \<noteq> [] \<and>
          translated (last ?ps) \<noteq> original (last ?ps) \<longrightarrow> ?r = limit_words t"
    using f' by blast
  have g': "?r = limit_words t"
    if "currentPartial \<noteq> []" "?np" "?fs \<noteq> []" "translated (last ?fs) = Some t" "t \<noteq> []"
       "translated (last ?fs) \<noteq> original (last ?fs)" for t
  proof -
    have "\<not> (?ps \<noteq> [] \<and> distinct_translation (last ?ps))"
      using that(2) by (auto simp: distinct_translation_iff)
    moreover have "distinct_translation (last ?fs)"
      using that(4,5,6) by (simp add: distinct_translation_def truthy_def)
    moreover have "limit_translated (last ?fs) = limit_words t"
      using that(4) by (simp add: limit_translated_def)
    ultimately show ?thesis
      using that(1,3) by (auto simp: getCurrentTranslatedPartial_def Let_def)
  qed
  have g: "\<forall>t. currentPartial \<noteq> [] \<and> ?np \<and> ?fs \<noteq> [] \<and> translated (last ?fs) = Some t \<and>
          t \<noteq> [] \<and> translated (last ?fs) \<noteq> original (last ?fs) \<longrightarrow> ?r = limit_words t"
    using g' by blast
  have h: "?np \<and> ?nf \<longrightarrow> ?r = []"
  proof
    assume n: "?np \<and> ?nf"
    then have "\<not> (?ps \<noteq> [] \<and> distinct_translation (last ?ps))"
      and "\<not> (?fs \<noteq> [] \<and> distinct_translation (last ?fs))"
      by (auto simp: distinct_translation_iff)
    then show "?r = []" by (auto simp: getCurrentTranslatedPartial_def Let_def)
  qed
  have e: "d_type data = ''final_transcript'' \<longrightarrow>
        (\<exists>e. transcripts (handleAzureWebSocketMessage now rnd data st) = transcripts st @ [e] \<and>
             original e = d_original data \<and>
             translated e = (if truthy (d_translated data) then d_translated data
                             else d_original data))"
    by (simp add: handleAzureWebSocketMessage_def onTranscriptUpdate_def js_or_def)
  from a b c d f g h e show ?thesis by (intro conjI)
qed

text \<open>
  A final with the translation \<open>hola\<close>; a log whose translations equal their originals;
  and a log of a partial without translation followed by the finals \<open>uno\<close> and \<open>dos\<close>,
  where the projection is the translation of the latest final.
\<close>

theorem translated_projection_witness:
  "getCurrentTranslatedPartial ''hello''
     (transcripts (handleAzureWebSocketMessage 1700000002000 ''q1w2e3r4t'' final_hola
                     initial_state)) = ''hola''
   \<and> d_type final_hola = ''final_transcript''
   \<and> (\<exists>e\<in>set (transcripts (handleAzureWebSocketMessage 1700000002000 ''q1w2e3r4t'' final_hola
                     initial_state)).
         translated e = Some ''hola'' \<and> original e = Some ''hello'')
   \<and> map translated (transcripts first_session) = map original (transcripts first_session)
   \<and> getCurrentTranslatedPartial ''hello'' (transcripts first_session) = []
   \<and> map type_t uno_dos_log = [partial, final, final]
   \<and> map original uno_dos_log = [Some ''hello'', Some ''one'', Some ''two'']
   \<and> map translated uno_dos_log = [Some ''hello'', Some ''uno'', Some ''dos'']
   \<and> update_currentPartial [] uno_dos_log = Some ''hello''
   \<and> getCurrentTranslatedPartial ''hello'' uno_dos_log = ''dos''"
proof -
  let ?ts = "transcripts (handleAzureWebSocketMessage 1700000002000 ''q1w2e3r4t'' final_hola
                     initial_state)"
  have ev: "getCurrentTranslatedPartial ''hello'' ?ts = ''hola''"
    by (simp add: handleAzureWebSocketMessage_def final_hola_def initial_state_def
          onTranscriptUpdate_def js_or_def truthy_def getCurrentTranslatedPartial_def
          distinct_translation_def limit_translated_def limit_words_hola Let_def)
  have t: "d_type final_hola = ''final_transcript''" by (simp add: final_hola_def)
  have same': "map translated (transcripts first_session) = map original (transcripts first_session)"
    by (simp add: first_session_def initial_state_def handler_defs
          handleAzureWebSocketMessage_def final_hello_def js_or_def truthy_def Let_def)
  then have same: "\<forall>e\<in>set (transcripts first_session). translated e = original e"
    by simp
  note th = translated_projection [of "''hello''" "transcripts first_session" final_hola
              1700000002000 "''q1w2e3r4t''" initial_state]
  from th same have z: "getCurrentTranslatedPartial ''hello'' (transcripts first_session) = []"
    by blast
  from th t obtain e where e: "?ts = transcripts initial_state @ [e]"
    "original e = d_original final_hola"
    "translated e = (if truthy (d_translated final_hola) then d_translated final_hola
                             else d_original final_hola)" by blast
  then have "e \<in> set ?ts" "translated e = Some ''hola''" "original e = Some ''hello''"
    by (simp_all add: final_hola_def truthy_def)
  then have ex: "\<exists>e\<in>set ?ts. translated e = Some ''hola'' \<and> original e = Some ''hello''"
    by blast
  note l = uno_dos_log_entries
  have p0: "translated (uno_dos_log ! 0) = original (uno_dos_log ! 0)"
    and o0: "original (uno_dos_log ! 0) = Some ''hello''"
    and t2: "translated (uno_dos_log ! 2) = Some ''dos''"
    and o2: "original (uno_dos_log ! 2) = Some ''two''"
    by (simp_all add: l(6,7,8,9))
  note th2 = translated_projection [of "''hello''" uno_dos_log final_hola
              1700000002000 "''q1w2e3r4t''" initial_state]
  from th2 have "\<forall>t. ''hello'' \<noteq> [] \<and>
          (filter (\<lambda>e. type_t e = partial) uno_dos_log = [] \<or>
           translated (last (filter (\<lambda>e. type_t e = partial) uno_dos_log)) = None \<or>
           translated (last (filter (\<lambda>e. type_t e = partial) uno_dos_log)) = Some [] \<or>
           translated (last (filter (\<lambda>e. type_t e = partial) uno_dos_log))
             = original (last (filter (\<lambda>e. type_t e = partial) uno_dos_log))) \<and>
          filter (\<lambda>e. type_t e = final) uno_dos_log \<noteq> [] \<and>
          translated (last (filter (\<lambda>e. type_t e = final) uno_dos_log)) = Some t \<and> t \<noteq> [] \<and>
          translated (last (filter (\<lambda>e. type_t e = final) uno_dos_log))
            \<noteq> original (last (filter (\<lambda>e. type_t e = final) uno_dos_log)) \<longrightarrow>
          getCurrentTranslatedPartial ''hello'' uno_dos_log = limit_words t"
    by blast
  then have dos: "getCurrentTranslatedPartial ''hello'' uno_dos_log = ''dos''"
    using p0 t2 o2 by (simp add: l(4,5) limit_words_dos)
  have cur: "update_currentPartial [] uno_dos_log = Some ''hello''"
    using o0 by (simp add: update_currentPartial_def l(4) limit_words_hello)
  from ev t ex same' z l(1,2,3) cur dos show ?thesis by (intro conjI)
qed

text \<open>
  Claim C9 as stated has the projection return the original when the latest event has no
  distinct translation.  For a partial event whose translation equals its original
  \<open>hello\<close>, the current partial text is \<open>hello\<close> and the projection is empty.
\<close>

theorem no_fallback_to_original_counterexample:
  "map original (transcripts (handleAzureWebSocketMessage 1700000001000 ''a1b2c3d4e''
                                 partial_hello initial_state)) = [Some ''hello'']
   \<and> map translated (transcripts (handleAzureWebSocketMessage 1700000001000 ''a1b2c3d4e''
                                 partial_hello initial_state)) = [Some ''hello'']
   \<and> update_currentPartial []
        (transcripts (handleAzureWebSocketMessage 1700000001000 ''a1b2c3d4e''
                        partial_hello initial_state)) = Some ''hello''
   \<and> getCurrentTranslatedPartial ''hello''
        (transcripts (handleAzureWebSocketMessage 1700000001000 ''a1b2c3d4e''
                        partial_hello initial_state)) = []"
  by (simp add: handleAzureWebSocketMessage_def partial_hello_def initial_state_def
        onTranscriptUpdate_def js_or_def truthy_def update_currentPartial_def
        getCurrentTranslatedPartial_def distinct_translation_def limit_words_hello Let_def)

lemma final_entry_populated:
  assumes "d_type data = ''final_transcript''"
  shows "\<exists>e. transcripts (handleAzureWebSocketMessage now rnd data st) = transcripts st @ [e] \<and>
           type_t e = final \<and>
           detectedLanguage e \<noteq> None \<and> detectedLanguage e \<noteq> Some [] \<and>
           confidence e \<noteq> None \<and> confidence e \<noteq> Some 0 \<and>
           (d_detectedLanguage data = None \<longrightarrow> detectedLanguage e = Some ''unknown'') \<and>
           (d_confidence data = None \<or> d_confidence data = Some 0 \<longrightarrow>
              confidence e = Some (9 / 10)) \<and>
           (\<forall>l. d_detectedLanguage data = Some l \<and> l \<noteq> [] \<longrightarrow> detectedLanguage e = Some l) \<and>
           (\<forall>r. d_confidence data = Some r \<and> r \<noteq> 0 \<longrightarrow> confidence e = Some r)"
proof -
  define e where "e = \<lparr>id_t = ''final_'' @ decimal now @ ''_'' @ rnd,
           type_t = final,
           original = d_original data,
           translated = js_or (d_translated data) (d_original data),
           detectedLanguage = js_or (d_detectedLanguage data) (Some ''unknown''),
           confidence = confidence_or_default (d_confidence data),
           timestamp = d_timestamp data,
           hasTranslation = None\<rparr>"
  have t: "transcripts (handleAzureWebSocketMessage now rnd data st) = transcripts st @ [e]"
    using assms by (simp add: handleAzureWebSocketMessage_def onTranscriptUpdate_def e_def)
  have l: "detectedLanguage e \<noteq> None \<and> detectedLanguage e \<noteq> Some [] \<and>
           (d_detectedLanguage data = None \<longrightarrow> detectedLanguage e = Some ''unknown'') \<and>
           (\<forall>l. d_detectedLanguage data = Some l \<and> l \<noteq> [] \<longrightarrow> detectedLanguage e = Some l)"
    by (cases "d_detectedLanguage data") (simp_all add: js_or_def truthy_def e_def)
  have c: "confidence e \<noteq> None \<and> confidence e \<noteq> Some 0 \<and>
           (d_confidence data = None \<or> d_confidence data = Some 0 \<longrightarrow>
              confidence e = Some (9 / 10)) \<and>
           (\<forall>r. d_confidence data = Some r \<and> r \<noteq> 0 \<longrightarrow> confidence e = Some r)"
    by (cases "d_confidence data")
       (simp_all add: confidence_or_default_def e_def del: not_None_eq)
  have k: "type_t e = final" by (simp add: e_def)
  show ?thesis by (rule exI [of _ e]) (use t l c k in blast)
qed

lemma handleAzureWebSocketMessage_transcripts:
  "transcripts (handleAzureWebSocketMessage now rnd data st) = transcripts st
   \<or> (\<exists>e. transcripts (handleAzureWebSocketMessage now rnd data st) = transcripts st @ [e] \<and>
          (type_t e = final \<longrightarrow>
             detectedLanguage e \<noteq> None \<and> detectedLanguage e \<noteq> Some [] \<and>
             confidence e \<noteq> None \<and> confidence e \<noteq> Some 0))"
proof (cases "d_type data = ''final_transcript''")
  case True
  from final_entry_populated [OF True, of now rnd st] show ?thesis by blast
next
  case False
  then show ?thesis
    by (simp add: handleAzureWebSocketMessage_def onTranscriptUpdate_def onConnectionChange_def)
qed

lemma transcripts_react:
  "transcripts (react ev st) = transcripts st \<or> transcripts (react ev st) = []
   \<or> (\<exists>e. transcripts (react ev st) = transcripts st @ [e] \<and>
          (type_t e = final \<longrightarrow>
             detectedLanguage e \<noteq> None \<and> detectedLanguage e \<noteq> Some [] \<and>
             confidence e \<noteq> None \<and> confidence e \<noteq> Some 0))"
proof (cases ev)
  case (AudioProcess c)
  have "transcripts (snd (onaudioprocess c st)) = transcripts st"
    by (auto simp: onaudioprocess_def processAudioFrames_def Let_def
          split: option.splits prod.splits)
  with AudioProcess show ?thesis by simp
next
  case (WsMessage now rnd parsed)
  show ?thesis
  proof (cases parsed)
    case None
    with WsMessage show ?thesis by (simp add: ws_onmessage_def)
  next
    case (Some a)
    with WsMessage handleAzureWebSocketMessage_transcripts [of now rnd a st]
    show ?thesis by (auto simp: ws_onmessage_def)
  qed
next
  case (WsOpen ws now rnd lp sendError)
  then show ?thesis
    by (cases sendError) (simp_all add: handler_defs Let_def)
qed (auto simp: handler_defs stopAudioCapture_frame Let_def split: option.splits)

lemma transcripts_handle:
  "transcripts (handle ev st) = transcripts st \<or> transcripts (handle ev st) = []
   \<or> (\<exists>e. transcripts (handle ev st) = transcripts st @ [e] \<and>
          (type_t e = final \<longrightarrow>
             detectedLanguage e \<noteq> None \<and> detectedLanguage e \<noteq> Some [] \<and>
             confidence e \<noteq> None \<and> confidence e \<noteq> Some 0))"
  unfolding handle_def dispatch_keeps by (rule transcripts_react)

lemma transcripts_run:
  assumes "\<forall>e\<in>set (transcripts st). type_t e = final \<longrightarrow>
             detectedLanguage e \<noteq> None \<and> detectedLanguage e \<noteq> Some [] \<and>
             confidence e \<noteq> None \<and> confidence e \<noteq> Some 0"
  shows "\<forall>e\<in>set (transcripts (run es st)). type_t e = final \<longrightarrow>
             detectedLanguage e \<noteq> None \<and> detectedLanguage e \<noteq> Some [] \<and>
             confidence e \<noteq> None \<and> confidence e \<noteq> Some 0"
  using assms
proof (induction es arbitrary: st)
  case Nil
  then show ?case by simp
next
  case (Cons ev es)
  have "\<forall>e\<in>set (transcripts (handle ev st)). type_t e = final \<longrightarrow>
             detectedLanguage e \<noteq> None \<and> detectedLanguage e \<noteq> Some [] \<and>
             confidence e \<noteq> None \<and> confidence e \<noteq> Some 0"
    using transcripts_handle [of ev st] Cons.prems by auto
  from Cons.IH [OF this] show ?case by simp
qed

text \<open>
  Claim C10.  The entry stored for a \<open>final_transcript\<close> message has a detected language
  and a confidence: \<open>unknown\<close> when the message has no language, 0.9 when it has no
  confidence or the confidence 0, the message's own values otherwise (an empty language
  counts as none).  Hence in every state the component reaches, each final entry of the
  log has a non-empty language and a confidence other than 0.
\<close>

theorem final_entries_populated:
  "(d_type data = ''final_transcript'' \<longrightarrow>
      (\<exists>e. transcripts (handleAzureWebSocketMessage now rnd data st) = transcripts st @ [e] \<and>
           type_t e = final \<and>
           detectedLanguage e \<noteq> None \<and> detectedLanguage e \<noteq> Some [] \<and>
           confidence e \<noteq> None \<and> confidence e \<noteq> Some 0 \<and>
           (d_detectedLanguage data = None \<longrightarrow> detectedLanguage e = Some ''unknown'') \<and>
           (d_confidence data = None \<or> d_confidence data = Some 0 \<longrightarrow>
              confidence e = Some (9 / 10)) \<and>
           (\<forall>l. d_detectedLanguage data = Some l \<and> l \<noteq> [] \<longrightarrow> detectedLanguage e = Some l) \<and>
           (\<forall>r. d_confidence data = Some r \<and> r \<noteq> 0 \<longrightarrow> confidence e = Some r)))
   \<and> (\<forall>e\<in>set (transcripts (run es initial_state)).
         type_t e = final \<longrightarrow>
           detectedLanguage e \<noteq> None \<and> detectedLanguage e \<noteq> Some [] \<and>
             confidence e \<noteq> None \<and> confidence e \<noteq> Some 0)"
proof -
  have "\<forall>e\<in>set (transcripts initial_state). type_t e = final \<longrightarrow>
             detectedLanguage e \<noteq> None \<and> detectedLanguage e \<noteq> Some [] \<and>
             confidence e \<noteq> None \<and> confidence e \<noteq> Some 0"
    by (simp add: initial_state_def)
  from transcripts_run [OF this, of es] final_entry_populated [of data now rnd st]
  show ?thesis by blast
qed

theorem final_entries_populated_witness:
  "d_type final_hello = ''final_transcript''
   \<and> d_detectedLanguage final_hello = None \<and> d_confidence final_hello = Some 0
   \<and> (\<exists>e. transcripts (handleAzureWebSocketMessage 1700000001000 ''a1b2c3d4e'' final_hello
                           initial_state) = [e] \<and>
            detectedLanguage e = Some ''unknown'' \<and> confidence e = Some (9 / 10))
   \<and> map detectedLanguage (transcripts first_session) = [Some ''unknown'']
   \<and> map confidence (transcripts first_session) = [Some (9 / 10)]"
proof -
  have ev: "map detectedLanguage (transcripts first_session) = [Some ''unknown'']"
    "map confidence (transcripts first_session) = [Some (9 / 10)]"
    by (simp_all add: first_session_def initial_state_def handler_defs
          handleAzureWebSocketMessage_def final_hello_def js_or_def truthy_def
          confidence_or_default_def Let_def)
  have d: "d_type final_hello = ''final_transcript''" "d_detectedLanguage final_hello = None"
    "d_confidence final_hello = Some 0" by (simp_all add: final_hello_def)
  have i: "transcripts initial_state = []" by (simp add: initial_state_def)
  from final_entries_populated [of final_hello 1700000001000 "''a1b2c3d4e''" initial_state "[]"] d i
  have "\<exists>e. transcripts (handleAzureWebSocketMessage 1700000001000 ''a1b2c3d4e'' final_hello
                           initial_state) = [e] \<and>
            detectedLanguage e = Some ''unknown'' \<and> confidence e = Some (9 / 10)"
    by auto
  with ev d show ?thesis by blast
qed

end
